theory Spec2Isabelle
  imports Complex_Main "HOL-Library.Monad_Syntax"
begin

section \<open>JavaScript numbers\<close>

text \<open>
  Pixel coordinates are JavaScript numbers. The finite ones are kept as exact rationals
  (binary rounding is not modelled; there is no negative zero); \<open>NaN\<close> and the two
  infinities are values of their own, since the code produces and tests them.
\<close>

datatype jsnum = NaN | NegInf | Fin rat | PosInf

text \<open>\<^verbatim>\<open>a < b\<close>: false as soon as one side is \<open>NaN\<close>.\<close>

fun js_lt :: "jsnum \<Rightarrow> jsnum \<Rightarrow> bool" where
  "js_lt NaN b = False"
| "js_lt a NaN = False"
| "js_lt PosInf b = False"
| "js_lt a NegInf = False"
| "js_lt NegInf b = True"
| "js_lt a PosInf = True"
| "js_lt (Fin a) (Fin b) = (a < b)"

definition js_gt :: "jsnum \<Rightarrow> jsnum \<Rightarrow> bool" where
  "js_gt a b = js_lt b a"

text \<open>\<^verbatim>\<open>a >= b\<close>: false as soon as one side is \<open>NaN\<close>.\<close>

definition js_ge :: "jsnum \<Rightarrow> jsnum \<Rightarrow> bool" where
  "js_ge a b = (a \<noteq> NaN \<and> b \<noteq> NaN \<and> \<not> js_lt a b)"

fun js_neg :: "jsnum \<Rightarrow> jsnum" where
  "js_neg NaN = NaN"
| "js_neg NegInf = PosInf"
| "js_neg PosInf = NegInf"
| "js_neg (Fin a) = Fin (- a)"

fun js_add :: "jsnum \<Rightarrow> jsnum \<Rightarrow> jsnum" where
  "js_add NaN b = NaN"
| "js_add a NaN = NaN"
| "js_add PosInf NegInf = NaN"
| "js_add NegInf PosInf = NaN"
| "js_add PosInf b = PosInf"
| "js_add a PosInf = PosInf"
| "js_add NegInf b = NegInf"
| "js_add a NegInf = NegInf"
| "js_add (Fin a) (Fin b) = Fin (a + b)"

definition js_sub :: "jsnum \<Rightarrow> jsnum \<Rightarrow> jsnum" where
  "js_sub a b = js_add a (js_neg b)"

text \<open>\<^verbatim>\<open>a / b\<close>; a finite number over zero is an infinity, zero over zero is \<open>NaN\<close>.\<close>

fun js_div :: "jsnum \<Rightarrow> jsnum \<Rightarrow> jsnum" where
  "js_div NaN b = NaN"
| "js_div a NaN = NaN"
| "js_div (Fin a) (Fin b) =
     (if b \<noteq> 0 then Fin (a / b)
      else if 0 < a then PosInf else if a < 0 then NegInf else NaN)"
| "js_div (Fin a) b = Fin 0"
| "js_div a (Fin b) =
     (if (a = PosInf) = (0 \<le> b) then PosInf else NegInf)"
| "js_div a b = NaN"

text \<open>
  \<^verbatim>\<open>a % b\<close>: the remainder has the sign of the dividend (the quotient is truncated
  towards zero); it is \<open>NaN\<close> for a zero divisor or an infinite dividend, and the
  dividend itself for an infinite divisor.
\<close>

definition trunc_rat :: "rat \<Rightarrow> int" where
  "trunc_rat q = (if 0 \<le> q then \<lfloor>q\<rfloor> else \<lceil>q\<rceil>)"

fun js_rem :: "jsnum \<Rightarrow> jsnum \<Rightarrow> jsnum" where
  "js_rem (Fin a) (Fin b) =
     (if b = 0 then NaN else Fin (a - b * of_int (trunc_rat (a / b))))"
| "js_rem (Fin a) PosInf = Fin a"
| "js_rem (Fin a) NegInf = Fin a"
| "js_rem a b = NaN"

text \<open>Truthiness of a number: \<open>0\<close> and \<open>NaN\<close> are falsy.\<close>

fun truthy :: "jsnum \<Rightarrow> bool" where
  "truthy NaN = False"
| "truthy (Fin a) = (a \<noteq> 0)"
| "truthy a = True"

section \<open>Options and the view scale\<close>

text \<open>
  The fields of \<^verbatim>\<open>this.options\<close> that the geometry reads. \<open>default_options\<close> are
  the values of \<^verbatim>\<open>setup_options\<close>.
\<close>

record options =
  header_height :: jsnum
  column_width :: jsnum
  step :: jsnum
  bar_height :: jsnum
  padding :: jsnum
  view_mode :: string

definition default_options :: options where
  "default_options =
     \<lparr>header_height = Fin 50, column_width = Fin 30, step = Fin 24,
      bar_height = Fin 20, padding = Fin 18, view_mode = ''Day''\<rparr>"

text \<open>\<^verbatim>\<open>view_is(modes)\<close> for a string argument.\<close>

definition view_is :: "options \<Rightarrow> string \<Rightarrow> bool" where
  "view_is opts modes = (view_mode opts = modes)"

text \<open>\<^verbatim>\<open>update_view_scale(view_mode)\<close>: the table of \<open>step\<close> and \<open>column_width\<close>.\<close>

definition update_view_scale :: "options \<Rightarrow> string \<Rightarrow> options" where
  "update_view_scale opts0 mode =
     (let opts = opts0\<lparr>view_mode := mode\<rparr>
      in if mode = ''Day'' then opts\<lparr>step := Fin 24, column_width := Fin 38\<rparr>
         else if mode = ''Half Day'' then opts\<lparr>step := Fin 12, column_width := Fin 38\<rparr>
         else if mode = ''Quarter Day'' then opts\<lparr>step := Fin 6, column_width := Fin 38\<rparr>
         else if mode = ''Week'' then opts\<lparr>step := Fin 168, column_width := Fin 140\<rparr>
         else if mode = ''Month'' then opts\<lparr>step := Fin 720, column_width := Fin 120\<rparr>
         else if mode = ''Year'' then opts\<lparr>step := Fin 8760, column_width := Fin 120\<rparr>
         else opts)"

section \<open>Snapping\<close>

text \<open>
  The three branches of \<^verbatim>\<open>get_snap_position\<close> are one computation on a unit and
  its half: \<^verbatim>\<open>rem = dx % unit; position = odx - rem + (rem < half ? 0 : unit)\<close>.
\<close>

definition snap_to :: "jsnum \<Rightarrow> jsnum \<Rightarrow> jsnum \<Rightarrow> jsnum" where
  "snap_to dx unit half =
     (let odx = dx; rem = js_rem dx unit
      in js_add (js_sub odx rem) (if js_lt rem half then Fin 0 else unit))"

definition get_snap_position :: "options \<Rightarrow> jsnum \<Rightarrow> jsnum" where
  "get_snap_position opts dx =
     (if view_is opts ''Week'' then
        snap_to dx (js_div (column_width opts) (Fin 7)) (js_div (column_width opts) (Fin 14))
      else if view_is opts ''Month'' then
        snap_to dx (js_div (column_width opts) (Fin 30)) (js_div (column_width opts) (Fin 60))
      else
        snap_to dx (column_width opts) (js_div (column_width opts) (Fin 2)))"

section \<open>Bars\<close>

text \<open>
  A \<^verbatim>\<open>Bar\<close> with the attributes of its rectangle \<^verbatim>\<open>$bar\<close> that the interaction
  code reads and writes: the attributes \<open>x\<close>, \<open>y\<close>, \<open>width\<close> (named here by their
  accessors \<^verbatim>\<open>getX()\<close>, \<^verbatim>\<open>getY()\<close>, \<^verbatim>\<open>getWidth()\<close>), and the values \<open>ox\<close>, \<open>oy\<close>, \<open>owidth\<close>, \<open>finaldx\<close>
  stored on it when a gesture starts. \<open>task_id\<close> and \<open>task_type\<close> are \<^verbatim>\<open>bar.task.id\<close>
  and \<^verbatim>\<open>bar.task.type\<close> (\<open>None\<close> when the task has no type).
\<close>

record bar =
  task_id :: string
  task_type :: "string option"
  getX :: jsnum
  getY :: jsnum
  getWidth :: jsnum
  ox :: jsnum
  oy :: jsnum
  owidth :: jsnum
  finaldx :: jsnum

datatype attr = AttrX | AttrY | AttrWidth

text \<open>
  \<^verbatim>\<open>update_attr(element, attr, value)\<close>: \<^verbatim>\<open>value = +value\<close>, and the attribute is
  set unless that is \<open>NaN\<close>.
\<close>

fun update_attr :: "bar \<Rightarrow> attr \<Rightarrow> jsnum \<Rightarrow> bar" where
  "update_attr b a NaN = b"
| "update_attr b AttrX v = b\<lparr>getX := v\<rparr>"
| "update_attr b AttrY v = b\<lparr>getY := v\<rparr>"
| "update_attr b AttrWidth v = b\<lparr>getWidth := v\<rparr>"

text \<open>
  \<^verbatim>\<open>Bar.update_bar_position({ x = null, width = null, y = null })\<close>. An argument that
  is \<^verbatim>\<open>null\<close> or left out is \<open>None\<close>. The first argument of the model is
  \<^verbatim>\<open>this.gantt.options.column_width\<close>. The calls that end the method
  (\<^verbatim>\<open>update_label_position\<close>, \<^verbatim>\<open>update_handle_position\<close>,
  \<^verbatim>\<open>update_progressbar_position\<close>, \<^verbatim>\<open>update_underlying_bar_position\<close>,
  \<^verbatim>\<open>update_arrow_position\<close>) read the rectangle and write the label, the handles,
  the progress bar, the underlying rectangle and the arrows; none of them writes the
  attributes kept here.
\<close>

definition update_bar_position ::
  "jsnum \<Rightarrow> jsnum option \<Rightarrow> jsnum option \<Rightarrow> jsnum option \<Rightarrow> bar \<Rightarrow> bar" where
  "update_bar_position cw px pwidth py b =
     (let b1 = (case px of
                  Some v \<Rightarrow> if truthy v then update_attr b AttrX v else b
                | None \<Rightarrow> b);
          b2 = (case pwidth of
                  Some w \<Rightarrow> if truthy w \<and> js_ge w cw
                            then update_attr b1 AttrWidth w else b1
                | None \<Rightarrow> b1);
          b3 = (case py of
                  Some v \<Rightarrow> if truthy v then update_attr b2 AttrY v else b2
                | None \<Rightarrow> b2)
      in b3)"

text \<open>
  The two resize branches of the \<^verbatim>\<open>mousemove\<close> handler of \<^verbatim>\<open>bind_bar_events\<close>,
  for the bar being dragged, once \<^verbatim>\<open>finaldx\<close> holds the snapped delta.
\<close>

definition resize_left :: "jsnum \<Rightarrow> bar \<Rightarrow> bar" where
  "resize_left cw b =
     update_bar_position cw
       (Some (js_add (ox b) (finaldx b))) (Some (js_sub (owidth b) (finaldx b))) None b"

definition resize_right :: "jsnum \<Rightarrow> bar \<Rightarrow> bar" where
  "resize_right cw b =
     update_bar_position cw
       None (Some (js_add (owidth b) (finaldx b))) None b"

section \<open>Envelope bars\<close>

datatype js_error = TypeError | RangeError

text \<open>\<^verbatim>\<open>get_bar(id)\<close>: the first visible bar of that task id, if any.\<close>

definition get_bar :: "bar list \<Rightarrow> string \<Rightarrow> bar option" where
  "get_bar visible_bars i = find (\<lambda>b. task_id b = i) visible_bars"

text \<open>
  The update of \<^verbatim>\<open>min_x\<close> and \<^verbatim>\<open>max_x\<close> for one descendant bar, in the
  \<^verbatim>\<open>mousemove\<close> handler of \<^verbatim>\<open>bind_bar_events\<close>.
\<close>

definition envelope_step :: "jsnum \<times> jsnum \<Rightarrow> bar \<Rightarrow> jsnum \<times> jsnum" where
  "envelope_step acc b =
     (let min_x = fst acc; max_x = snd acc;
          min_x' = (if js_lt (getX b) min_x then getX b else min_x);
          max_x' = (if js_gt (js_add (getWidth b) (getX b)) max_x
                    then js_add (getWidth b) (getX b) else max_x)
      in (min_x', max_x'))"

text \<open>
  The loop over the ids that \<^verbatim>\<open>get_all_dependent_tasks(ancestor_bar.task.id)\<close>
  returned. The bundled build (\<^verbatim>\<open>part_000\<close>) skips an id without a visible bar
  (\<^verbatim>\<open>if (bar)\<close>); \<^verbatim>\<open>src/index.js\<close> reads \<^verbatim>\<open>bar.$bar\<close> of \<^verbatim>\<open>undefined\<close> there,
  a \<open>TypeError\<close>.
\<close>

fun envelope_dist :: "bar list \<Rightarrow> string list \<Rightarrow> jsnum \<times> jsnum \<Rightarrow> jsnum \<times> jsnum" where
  "envelope_dist visible_bars [] acc = acc"
| "envelope_dist visible_bars (i # ids) acc =
     envelope_dist visible_bars ids
       (case get_bar visible_bars i of None \<Rightarrow> acc | Some b \<Rightarrow> envelope_step acc b)"

fun envelope_src ::
  "bar list \<Rightarrow> string list \<Rightarrow> jsnum \<times> jsnum \<Rightarrow> js_error + jsnum \<times> jsnum" where
  "envelope_src visible_bars [] acc = Inr acc"
| "envelope_src visible_bars (i # ids) acc =
     (case get_bar visible_bars i of
        None \<Rightarrow> Inl TypeError
      | Some b \<Rightarrow> envelope_src visible_bars ids (envelope_step acc b))"

text \<open>
  The body of \<^verbatim>\<open>parent_bars.forEach\<close> for one ancestor bar \<open>a\<close>: \<open>cw\<close> is
  \<^verbatim>\<open>options.column_width\<close>, \<open>dep_ids\<close> what \<^verbatim>\<open>get_all_dependent_tasks\<close> returned
  for the ancestor. The call of \<^verbatim>\<open>date_changed\<close> that follows writes the task's dates,
  not the bar. \<open>update_ancestor_bar_dist\<close> is the bundled build, with its three
  branches; \<open>update_ancestor_bar_src\<close> is \<^verbatim>\<open>src/index.js\<close>, with two.
\<close>

definition update_ancestor_bar_dist :: "jsnum \<Rightarrow> bar list \<Rightarrow> string list \<Rightarrow> bar \<Rightarrow> bar" where
  "update_ancestor_bar_dist cw visible_bars dep_ids a =
     (if task_type a = Some ''project'' \<or> task_type a = Some ''tag'' then
        (let acc = envelope_dist visible_bars dep_ids (PosInf, NegInf);
             min_x = fst acc; max_x = snd acc
         in if js_gt min_x (ox a) then
              update_bar_position cw (Some min_x) (Some (js_sub max_x min_x)) None a
            else if js_lt min_x (ox a) then
              update_bar_position cw (Some min_x) (Some (js_sub max_x min_x)) None a
            else
              update_bar_position cw None (Some (js_sub max_x (ox a))) None a)
      else a)"

definition update_ancestor_bar_src ::
  "jsnum \<Rightarrow> bar list \<Rightarrow> string list \<Rightarrow> bar \<Rightarrow> js_error + bar" where
  "update_ancestor_bar_src cw visible_bars dep_ids a =
     (if task_type a = Some ''project'' \<or> task_type a = Some ''tag'' then
        (case envelope_src visible_bars dep_ids (PosInf, NegInf) of
           Inl e \<Rightarrow> Inl e
         | Inr acc \<Rightarrow>
             (let min_x = fst acc; max_x = snd acc
              in if js_gt min_x (ox a) then
                   Inr (update_bar_position cw (Some min_x) (Some (js_sub max_x min_x)) None a)
                 else
                   Inr (update_bar_position cw None (Some (js_sub max_x (ox a))) None a)))
      else Inr a)"

text \<open>
  Vocabulary for the envelope: the left and right edge of a bar with finite
  coordinates.
\<close>

definition finite_bar :: "bar \<Rightarrow> bool" where
  "finite_bar b = (case (getX b, getWidth b) of (Fin r, Fin w) \<Rightarrow> True | _ \<Rightarrow> False)"

definition bar_left :: "bar \<Rightarrow> rat" where
  "bar_left b = (case getX b of Fin r \<Rightarrow> r | _ \<Rightarrow> 0)"

definition bar_right :: "bar \<Rightarrow> rat" where
  "bar_right b = (case js_add (getWidth b) (getX b) of Fin r \<Rightarrow> r | _ \<Rightarrow> 0)"

text \<open>A bar at rest, for the scenarios: id, type, left edge and width.\<close>

definition plain_bar :: "string \<Rightarrow> string option \<Rightarrow> rat \<Rightarrow> rat \<Rightarrow> bar" where
  "plain_bar i ty left w =
     \<lparr>task_id = i, task_type = ty, getX = Fin left, getY = Fin 68, getWidth = Fin w,
      ox = Fin left, oy = Fin 68, owidth = Fin w, finaldx = Fin 0\<rparr>"

section \<open>Tasks\<close>

text \<open>
  A \<^verbatim>\<open>Date\<close> is its time value in milliseconds, \<open>None\<close> for an Invalid Date. The
  \<open>start\<close> and \<open>end\<close> of a raw task record are absent (\<^verbatim>\<open>undefined\<close> or \<^verbatim>\<open>null\<close>),
  a string or a \<^verbatim>\<open>Date\<close>; its \<open>dependencies\<close> are absent, a comma-separated string
  or, once normalized, a list of ids.
\<close>

type_synonym js_date = "int option"

datatype raw_date = Absent | Str string | DateObj js_date

datatype deps = DepsAbsent | DepsString string | DepsList "string list"

text \<open>
  The fields of a task object, each named \<open>t_\<close> and its name in the source:
  \<open>t__start\<close>, \<open>t__end\<close> and \<open>t__index\<close> are \<^verbatim>\<open>_start\<close>, \<^verbatim>\<open>_end\<close> and \<^verbatim>\<open>_index\<close>.
  A field that is \<^verbatim>\<open>undefined\<close> is \<open>None\<close>.
\<close>

record task =
  t_name :: string
  t_start :: raw_date
  t_end :: raw_date
  t_dependencies :: deps
  t_id :: "string option"
  t_type :: "string option"
  t_visible :: "bool option"
  t__start :: "js_date option"
  t__end :: "js_date option"
  t__index :: "nat option"
  t_invalid :: bool

section \<open>Dates\<close>

text \<open>
  The \<^verbatim>\<open>Date\<close> of the platform, after the ECMAScript specification, with the local
  time zone taken to be UTC (no offset, no daylight saving): a time value is a number
  of milliseconds since 1970-01-01T00:00, and the fields of a date are computed from
  it. Time values are integers; an Invalid Date has none.
\<close>

definition msPerDay :: int where "msPerDay = 86400000"

definition msPerHour :: int where "msPerHour = 3600000"

definition msPerMinute :: int where "msPerMinute = 60000"

definition msPerSecond :: int where "msPerSecond = 1000"

definition Day :: "int \<Rightarrow> int" where
  "Day t = t div msPerDay"

definition TimeWithinDay :: "int \<Rightarrow> int" where
  "TimeWithinDay t = t mod msPerDay"

definition DaysInYear :: "int \<Rightarrow> int" where
  "DaysInYear y =
     (if y mod 4 \<noteq> 0 then 365 else if y mod 100 \<noteq> 0 then 366
      else if y mod 400 \<noteq> 0 then 365 else 366)"

definition DayFromYear :: "int \<Rightarrow> int" where
  "DayFromYear y =
     365 * (y - 1970) + (y - 1969) div 4 - (y - 1901) div 100 + (y - 1601) div 400"

text \<open>
  The year of a day number: the specification asks for the largest \<open>y\<close> with
  \<open>DayFromYear y \<le> d\<close>. It is computed from an estimate that is off by one at most
  (lemma \<open>year_from_day_bounds\<close> below shows that the result is that year).
\<close>

definition year_from_day :: "int \<Rightarrow> int" where
  "year_from_day d =
     (let y = 1970 + (400 * d) div 146097
      in if d < DayFromYear y then y - 1
         else if d < DayFromYear (y + 1) then y else y + 1)"

definition YearFromTime :: "int \<Rightarrow> int" where
  "YearFromTime t = year_from_day (Day t)"

definition in_leap_year :: "int \<Rightarrow> int" where
  "in_leap_year y = (if DaysInYear y = 366 then 1 else 0)"

definition InLeapYear :: "int \<Rightarrow> int" where
  "InLeapYear t = in_leap_year (YearFromTime t)"

definition DayWithinYear :: "int \<Rightarrow> int" where
  "DayWithinYear t = Day t - DayFromYear (YearFromTime t)"

text \<open>The number of days of a year before its month \<open>m\<close> (0 to 11).\<close>

definition days_before_month :: "int \<Rightarrow> int \<Rightarrow> int" where
  "days_before_month m leap =
     (if m = 0 then 0 else if m = 1 then 31 else if m = 2 then 59 + leap
      else if m = 3 then 90 + leap else if m = 4 then 120 + leap
      else if m = 5 then 151 + leap else if m = 6 then 181 + leap
      else if m = 7 then 212 + leap else if m = 8 then 243 + leap
      else if m = 9 then 273 + leap else if m = 10 then 304 + leap
      else 334 + leap)"

definition MonthFromTime :: "int \<Rightarrow> int" where
  "MonthFromTime t =
     (let d = DayWithinYear t; l = InLeapYear t
      in if d < 31 then 0 else if d < 59 + l then 1 else if d < 90 + l then 2
         else if d < 120 + l then 3 else if d < 151 + l then 4
         else if d < 181 + l then 5 else if d < 212 + l then 6
         else if d < 243 + l then 7 else if d < 273 + l then 8
         else if d < 304 + l then 9 else if d < 334 + l then 10 else 11)"

definition DateFromTime :: "int \<Rightarrow> int" where
  "DateFromTime t =
     DayWithinYear t - days_before_month (MonthFromTime t) (InLeapYear t) + 1"

definition HourFromTime :: "int \<Rightarrow> int" where
  "HourFromTime t = (t div msPerHour) mod 24"

definition MinFromTime :: "int \<Rightarrow> int" where
  "MinFromTime t = (t div msPerMinute) mod 60"

definition SecFromTime :: "int \<Rightarrow> int" where
  "SecFromTime t = (t div msPerSecond) mod 60"

definition msFromTime :: "int \<Rightarrow> int" where
  "msFromTime t = t mod msPerSecond"

definition MakeTime :: "int \<Rightarrow> int \<Rightarrow> int \<Rightarrow> int \<Rightarrow> int" where
  "MakeTime hour minute sec ms =
     hour * msPerHour + minute * msPerMinute + sec * msPerSecond + ms"

text \<open>
  \<open>MakeDay\<close>: the day number of the first of the month, the month counted from the
  year (\<open>month\<close> may lie outside 0 to 11), plus \<open>date - 1\<close>.
\<close>

definition MakeDay :: "int \<Rightarrow> int \<Rightarrow> int \<Rightarrow> int" where
  "MakeDay year month date =
     (let ym = year + month div 12; mn = month mod 12
      in DayFromYear ym + days_before_month mn (in_leap_year ym) + date - 1)"

definition MakeDate :: "int \<Rightarrow> int \<Rightarrow> int" where
  "MakeDate day time = day * msPerDay + time"

definition TimeClip :: "int \<Rightarrow> js_date" where
  "TimeClip time = (if \<bar>time\<bar> > 8640000000000000 then None else Some time)"

text \<open>
  \<^verbatim>\<open>new Date(year, month, ...rest)\<close>, the constructor with two arguments or more, each
  already a number: \<open>None\<close> is \<open>NaN\<close>. \<open>rest\<close> holds date, hours, minutes, seconds
  and milliseconds as far as given; arguments past the seventh are ignored. A year
  from 0 to 99 means 1900 to 1999.
\<close>

definition component :: "int option list \<Rightarrow> nat \<Rightarrow> int \<Rightarrow> int option" where
  "component rest i dflt = (if i < length rest then rest ! i else Some dflt)"

definition new_Date :: "int option \<Rightarrow> int option \<Rightarrow> int option list \<Rightarrow> js_date" where
  "new_Date year month rest =
     do {
       y \<leftarrow> year;
       m \<leftarrow> month;
       dt \<leftarrow> component rest 0 1;
       h \<leftarrow> component rest 1 0;
       mi \<leftarrow> component rest 2 0;
       s \<leftarrow> component rest 3 0;
       milli \<leftarrow> component rest 4 0;
       let yr = (if 0 \<le> y \<and> y \<le> 99 then 1900 + y else y);
       TimeClip (MakeDate (MakeDay yr m dt) (MakeTime h mi s milli))
     }"

text \<open>The getters of a \<^verbatim>\<open>Date\<close>: \<open>NaN\<close> on an Invalid Date.\<close>

definition getFullYear :: "js_date \<Rightarrow> int option" where
  "getFullYear date = map_option YearFromTime date"

definition getMonth :: "js_date \<Rightarrow> int option" where
  "getMonth date = map_option MonthFromTime date"

definition getDate :: "js_date \<Rightarrow> int option" where
  "getDate date = map_option DateFromTime date"

definition getHours :: "js_date \<Rightarrow> int option" where
  "getHours date = map_option HourFromTime date"

definition getMinutes :: "js_date \<Rightarrow> int option" where
  "getMinutes date = map_option MinFromTime date"

definition getSeconds :: "js_date \<Rightarrow> int option" where
  "getSeconds date = map_option SecFromTime date"

definition getMilliseconds :: "js_date \<Rightarrow> int option" where
  "getMilliseconds date = map_option msFromTime date"

text \<open>
  What the code takes from its environment: the conversion of a string argument by
  the \<^verbatim>\<open>Date\<close> constructor (\<open>to_integer\<close>: the integer part of its number, \<open>None\<close>
  when that is not finite), the milliseconds \<^verbatim>\<open>parseFloat('0.' + s) * 1000\<close> of a
  fraction as the constructor reads them (\<open>fraction_ms\<close>), the time value of
  \<^verbatim>\<open>new Date()\<close> (\<open>now\<close>), and the string
  \<^verbatim>\<open>Math.random().toString(36).slice(2, 12)\<close> drawn for the task at a position
  (\<open>random_suffix\<close>). They are parameters: nothing is assumed of them.
\<close>

record js_env =
  to_integer :: "string \<Rightarrow> int option"
  fraction_ms :: "string \<Rightarrow> int option"
  now :: int
  random_suffix :: "nat \<Rightarrow> string"

section \<open>Strings\<close>

text \<open>
  Strings are lists of characters; the white space of \<^verbatim>\<open>trim\<close> and \<^verbatim>\<open>parseInt\<close> is
  the ASCII one (tab, line feed, vertical tab, form feed, carriage return, space).
\<close>

definition is_space :: "char \<Rightarrow> bool" where
  "is_space c = (c = CHR 0x09 \<or> c = CHR 0x0A \<or> c = CHR 0x0B \<or> c = CHR 0x0C
                 \<or> c = CHR 0x0D \<or> c = CHR '' '')"

definition is_digit :: "char \<Rightarrow> bool" where
  "is_digit c = (48 \<le> (of_char c :: nat) \<and> (of_char c :: nat) \<le> 57)"

definition digit_value :: "char \<Rightarrow> int" where
  "digit_value c = int (of_char c) - 48"

definition digits_value :: "string \<Rightarrow> int" where
  "digits_value ds = foldl (\<lambda>n c. 10 * n + digit_value c) 0 ds"

text \<open>
  \<^verbatim>\<open>str.split(sep)\<close> for a separator that is one character, or a class of single
  characters: the pieces between the separators, one piece at least.
\<close>

fun split_on :: "(char \<Rightarrow> bool) \<Rightarrow> string \<Rightarrow> string list" where
  "split_on sep [] = [[]]"
| "split_on sep (c # cs) =
     (if sep c then [] # split_on sep cs
      else (case split_on sep cs of
              [] \<Rightarrow> [[c]]
            | w # ws \<Rightarrow> (c # w) # ws))"

definition trim :: "string \<Rightarrow> string" where
  "trim s = rev (dropWhile is_space (rev (dropWhile is_space s)))"

text \<open>
  \<^verbatim>\<open>parseInt(val, 10)\<close>: leading white space, a sign, then the longest run of
  decimal digits; \<open>NaN\<close> when there is no digit.
\<close>

definition parseInt :: "string \<Rightarrow> int option" where
  "parseInt val =
     (let s = dropWhile is_space val;
          negative = (case s of [] \<Rightarrow> False | c # r \<Rightarrow> c = CHR ''-'');
          body = (case s of [] \<Rightarrow> []
                  | c # r \<Rightarrow> if c = CHR ''-'' \<or> c = CHR ''+'' then r else s);
          ds = takeWhile is_digit body
      in if ds = [] then None
         else Some (if negative then - digits_value ds else digits_value ds))"

text \<open>A number as a string (\<^verbatim>\<open>val + ''\<close>), for an integer or \<open>NaN\<close>.\<close>

definition digit_char :: "nat \<Rightarrow> char" where
  "digit_char n = char_of (48 + n)"

fun string_of_nat :: "nat \<Rightarrow> string" where
  "string_of_nat n =
     (if n < 10 then [digit_char n] else string_of_nat (n div 10) @ [digit_char (n mod 10)])"

declare string_of_nat.simps [simp del]

definition number_to_string :: "int option \<Rightarrow> string" where
  "number_to_string v =
     (case v of
        None \<Rightarrow> ''NaN''
      | Some i \<Rightarrow> if i < 0 then CHR ''-'' # string_of_nat (nat (- i)) else string_of_nat (nat i))"

text \<open>
  \<^verbatim>\<open>padStart(str, targetLength, padString)\<close>, the function of the source. Every call
  passes the pad string \<^verbatim>\<open>'0'\<close>; with an empty pad string and something to pad,
  \<^verbatim>\<open>repeat\<close> would raise a \<open>RangeError\<close>, which is not modelled.
\<close>

definition padStart :: "string \<Rightarrow> nat \<Rightarrow> string \<Rightarrow> string" where
  "padStart str targetLength padString =
     (if length str > targetLength then str
      else (let n = targetLength - length str;
                p = (if n > length padString
                     then padString @ concat (replicate (n div length padString) padString)
                     else padString)
            in take n p @ str))"

section \<open>Calendar arithmetic\<close>

datatype scale = YEAR | MONTH | DAY | HOUR | MINUTE | SECOND | MILLISECOND

text \<open>\<^verbatim>\<open>date_utils.get_date_values(date)\<close>\<close>

definition get_date_values :: "js_date \<Rightarrow> int option list" where
  "get_date_values date =
     [getFullYear date, getMonth date, getDate date, getHours date,
      getMinutes date, getSeconds date, getMilliseconds date]"

text \<open>
  The time part of \<^verbatim>\<open>date_utils.parse\<close>: the pieces of \<^verbatim>\<open>parts[1].split(/[.:]/)\<close> as
  the constructor will read them; with four pieces the last is a fraction of a second.
\<close>

definition time_values :: "js_env \<Rightarrow> string list \<Rightarrow> int option list" where
  "time_values env time_parts =
     (if length time_parts = 4
      then map (to_integer env) (take 3 time_parts) @ [fraction_ms env (time_parts ! 3)]
      else map (to_integer env) time_parts)"

text \<open>
  \<^verbatim>\<open>date_utils.parse(date)\<close> with the default separators, on a string. The date
  parts are read by \<^verbatim>\<open>parseInt\<close>, the second is decreased by one (\<open>NaN\<close> when there is
  none), the time values follow, and all go to the constructor.
\<close>

definition parse_string :: "js_env \<Rightarrow> string \<Rightarrow> js_date" where
  "parse_string env date =
     (case split_on (\<lambda>c. c = CHR '' '') date of
        [] \<Rightarrow> None
      | p0 # ps \<Rightarrow>
          (let date_parts = map parseInt (split_on (\<lambda>c. c = CHR ''-'') p0);
               vals = (case ps of
                         [] \<Rightarrow> []
                       | p1 # _ \<Rightarrow>
                           if p1 = [] then []
                           else time_values env
                                  (split_on (\<lambda>c. c = CHR ''.'' \<or> c = CHR '':'') p1))
           in case date_parts of
                [] \<Rightarrow> None
              | [y] \<Rightarrow> new_Date y None vals
              | y # m # rest \<Rightarrow> new_Date y (map_option (\<lambda>m. m - 1) m) (rest @ vals)))"

text \<open>
  \<^verbatim>\<open>date_utils.parse\<close>: a \<^verbatim>\<open>Date\<close> is returned as it is, a string is parsed, and
  anything else gives \<^verbatim>\<open>undefined\<close> (\<open>None\<close>).
\<close>

definition parse :: "js_env \<Rightarrow> raw_date \<Rightarrow> js_date option" where
  "parse env date =
     (case date of
        DateObj d \<Rightarrow> Some d
      | Str s \<Rightarrow> Some (parse_string env s)
      | Absent \<Rightarrow> None)"

text \<open>
  \<^verbatim>\<open>date_utils.to_string(date, with_time)\<close>; the argument is \<open>None\<close> when it is not
  a \<^verbatim>\<open>Date\<close>.
\<close>

definition to_string_val :: "nat \<Rightarrow> int option \<Rightarrow> string" where
  "to_string_val i val0 =
     (let val = (if i = 1 then map_option (\<lambda>v. v + 1) val0 else val0)
      in if i = 6 then padStart (number_to_string val) 3 ''0''
         else padStart (number_to_string val) 2 ''0'')"

definition to_string :: "js_date option \<Rightarrow> bool \<Rightarrow> js_error + string" where
  "to_string date with_time =
     (case date of
        None \<Rightarrow> Inl TypeError
      | Some d \<Rightarrow>
          (let vals = map (\<lambda>(i, v). to_string_val i v) (enumerate 0 (get_date_values d));
               date_string = vals ! 0 @ ''-'' @ vals ! 1 @ ''-'' @ vals ! 2;
               time_string = vals ! 3 @ '':'' @ vals ! 4 @ '':'' @ vals ! 5 @ ''.'' @ vals ! 6
           in Inr (date_string @ (if with_time then '' '' @ time_string else ''''))))"

text \<open>
  \<^verbatim>\<open>date_utils.diff(date_a, date_b, scale)\<close>: the floor of the difference in the unit,
  a month being 30 days and a year 12 such months; \<open>NaN\<close> when a side is \<^verbatim>\<open>undefined\<close>
  or an Invalid Date. The chain of floating-point divisions is an exact division here.
\<close>

definition scale_ms :: "scale \<Rightarrow> int" where
  "scale_ms sc =
     (case sc of
        MILLISECOND \<Rightarrow> 1
      | SECOND \<Rightarrow> 1000
      | MINUTE \<Rightarrow> 1000 * 60
      | HOUR \<Rightarrow> 1000 * 60 * 60
      | DAY \<Rightarrow> 1000 * 60 * 60 * 24
      | MONTH \<Rightarrow> 1000 * 60 * 60 * 24 * 30
      | YEAR \<Rightarrow> 1000 * 60 * 60 * 24 * 30 * 12)"

definition diff :: "js_date option \<Rightarrow> js_date option \<Rightarrow> scale \<Rightarrow> int option" where
  "diff date_a date_b sc =
     (case (date_a, date_b) of
        (Some (Some a), Some (Some b)) \<Rightarrow> Some ((a - b) div scale_ms sc)
      | _ \<Rightarrow> None)"

text \<open>\<^verbatim>\<open>date_utils.add(date, qty, scale)\<close> for an integer \<open>qty\<close>.\<close>

definition plus_if :: "int option \<Rightarrow> bool \<Rightarrow> int \<Rightarrow> int option" where
  "plus_if v b qty = map_option (\<lambda>x. x + (if b then qty else 0)) v"

definition add :: "js_date \<Rightarrow> int \<Rightarrow> scale \<Rightarrow> js_date" where
  "add date qty sc =
     new_Date (plus_if (getFullYear date) (sc = YEAR) qty)
              (plus_if (getMonth date) (sc = MONTH) qty)
              [plus_if (getDate date) (sc = DAY) qty,
               plus_if (getHours date) (sc = HOUR) qty,
               plus_if (getMinutes date) (sc = MINUTE) qty,
               plus_if (getSeconds date) (sc = SECOND) qty,
               plus_if (getMilliseconds date) (sc = MILLISECOND) qty]"

text \<open>\<^verbatim>\<open>date_utils.today()\<close>: year, month and date of \<^verbatim>\<open>new Date()\<close>.\<close>

definition today :: "js_env \<Rightarrow> js_date" where
  "today env =
     new_Date (getFullYear (Some (now env))) (getMonth (Some (now env)))
       [getDate (Some (now env))]"

text \<open>
  The Gregorian calendar: leap years, the length of month \<open>m\<close> (1 to 12) of year
  \<open>y\<close>, and the dates that exist.
\<close>

definition leap_year :: "int \<Rightarrow> bool" where
  "leap_year y = ((y mod 4 = 0 \<and> y mod 100 \<noteq> 0) \<or> y mod 400 = 0)"

definition days_in_month :: "int \<Rightarrow> int \<Rightarrow> int" where
  "days_in_month y m =
     (if m = 2 then (if leap_year y then 29 else 28)
      else if m = 4 \<or> m = 6 \<or> m = 9 \<or> m = 11 then 30 else 31)"

definition valid_ymd :: "int \<Rightarrow> int \<Rightarrow> int \<Rightarrow> bool" where
  "valid_ymd y m d = (1 \<le> m \<and> m \<le> 12 \<and> 1 \<le> d \<and> d \<le> days_in_month y m)"

text \<open>
  A date string \<^verbatim>\<open>YYYY-MM-DD\<close> as the specification describes it: ten characters,
  digits around two hyphens, zero-padded, naming a date that exists; and the three
  numbers it names.
\<close>

definition date_year :: "string \<Rightarrow> int" where
  "date_year s = digits_value (take 4 s)"

definition date_month :: "string \<Rightarrow> int" where
  "date_month s = digits_value (take 2 (drop 5 s))"

definition date_day :: "string \<Rightarrow> int" where
  "date_day s = digits_value (drop 8 s)"

definition well_formed_date :: "string \<Rightarrow> bool" where
  "well_formed_date s =
     (length s = 10 \<and> s ! 4 = CHR ''-'' \<and> s ! 7 = CHR ''-''
      \<and> list_all is_digit (take 4 s) \<and> list_all is_digit (take 2 (drop 5 s))
      \<and> list_all is_digit (drop 8 s)
      \<and> valid_ymd (date_year s) (date_month s) (date_day s))"

section \<open>The dependency graph\<close>

text \<open>
  \<^verbatim>\<open>this.dependency_map\<close>: an object used as a map from a task id to the list of the
  ids that depend on it. An id pushed into a list may be \<^verbatim>\<open>undefined\<close> (\<open>None\<close>);
  used as a key, \<^verbatim>\<open>undefined\<close> is the string "undefined". (Keys that are property
  names of \<^verbatim>\<open>Object.prototype\<close>, such as "constructor", are not modelled.)
\<close>

type_synonym dep_map = "string \<Rightarrow> string option list option"

fun key_of :: "string option \<Rightarrow> string" where
  "key_of None = ''undefined''"
| "key_of (Some s) = s"

text \<open>
  \<^verbatim>\<open>this.dependency_map[d] = this.dependency_map[d] || []; this.dependency_map[d].push(t.id)\<close>
\<close>

definition push_dep :: "dep_map \<Rightarrow> string \<Rightarrow> string option \<Rightarrow> dep_map" where
  "push_dep m d i = m(d \<mapsto> (case m d of None \<Rightarrow> [] | Some l \<Rightarrow> l) @ [i])"

text \<open>
  \<^verbatim>\<open>for (let d of t.dependencies)\<close>: a list gives its elements, a string its
  characters, and \<^verbatim>\<open>undefined\<close> is not iterable.
\<close>

fun iterate_deps :: "deps \<Rightarrow> js_error + string list" where
  "iterate_deps DepsAbsent = Inl TypeError"
| "iterate_deps (DepsString s) = Inr (map (\<lambda>c. [c]) s)"
| "iterate_deps (DepsList ds) = Inr ds"

fun setup_dependencies_loop :: "task list \<Rightarrow> dep_map \<Rightarrow> js_error + dep_map" where
  "setup_dependencies_loop [] m = Inr m"
| "setup_dependencies_loop (t # ts) m =
     (case iterate_deps (t_dependencies t) of
        Inl e \<Rightarrow> Inl e
      | Inr ds \<Rightarrow> setup_dependencies_loop ts (foldl (\<lambda>m d. push_dep m d (t_id t)) m ds))"

definition setup_dependencies :: "task list \<Rightarrow> js_error + dep_map" where
  "setup_dependencies tasks = setup_dependencies_loop tasks Map.empty"

text \<open>
  \<^verbatim>\<open>acc.concat(this.dependency_map[curr])\<close>: a list is appended element by element,
  a missing entry appends the one element \<^verbatim>\<open>undefined\<close>.
\<close>

definition lookup_deps :: "dep_map \<Rightarrow> string option \<Rightarrow> string option list" where
  "lookup_deps m cur = (case m (key_of cur) of None \<Rightarrow> [None] | Some l \<Rightarrow> l)"

text \<open>
  The \<^verbatim>\<open>while (to_process.length)\<close> loop of \<^verbatim>\<open>get_all_dependent_tasks\<close>. The loop
  need not end, so the result is an option: \<open>None\<close> when it runs forever.
\<close>

partial_function (option) dependent_tasks_loop ::
  "dep_map \<Rightarrow> string option list \<Rightarrow> string option list \<Rightarrow> string option list option" where
  "dependent_tasks_loop m out to_process =
     (if to_process = [] then Some out
      else (let deps = concat (map (lookup_deps m) to_process)
            in dependent_tasks_loop m (out @ deps)
                 (filter (\<lambda>d. d \<notin> set to_process) deps)))"

text \<open>\<^verbatim>\<open>Boolean\<close> on an id: \<^verbatim>\<open>undefined\<close> and the empty string are falsy.\<close>

definition js_Boolean :: "string option \<Rightarrow> bool" where
  "js_Boolean v = (case v of None \<Rightarrow> False | Some s \<Rightarrow> s \<noteq> [])"

definition get_all_dependent_tasks :: "dep_map \<Rightarrow> string \<Rightarrow> string list option" where
  "get_all_dependent_tasks m i =
     map_option (\<lambda>out. map the (filter js_Boolean out))
       (dependent_tasks_loop m [] [Some i])"

text \<open>A normalized task with an id and a list of dependencies, for the scenarios.\<close>

definition mk_task :: "string \<Rightarrow> string list \<Rightarrow> task" where
  "mk_task i ds =
     \<lparr>t_name = i, t_start = Str ''2024-01-10'', t_end = Str ''2024-01-12'',
      t_dependencies = DepsList ds, t_id = Some i, t_type = None, t_visible = None,
      t__start = None, t__end = None, t__index = None, t_invalid = False\<rparr>"

text \<open>The map of two tasks that depend on each other: A on B and B on A.\<close>

definition cycle_map :: dep_map where
  "cycle_map = [''B'' \<mapsto> [Some ''A''], ''A'' \<mapsto> [Some ''B'']]"

section \<open>Arrows\<close>












section \<open>Task normalization\<close>

text \<open>\<^verbatim>\<open>!task.start\<close>: nothing there, or the empty string.\<close>

definition falsy :: "raw_date \<Rightarrow> bool" where
  "falsy r = (case r of Absent \<Rightarrow> True | Str s \<Rightarrow> s = [] | DateObj d \<Rightarrow> False)"

text \<open>Exceptions pass through what follows.\<close>

definition bind_err :: "js_error + 'a \<Rightarrow> ('a \<Rightarrow> js_error + 'b) \<Rightarrow> js_error + 'b" where
  "bind_err r f = (case r of Inl e \<Rightarrow> Inl e | Inr v \<Rightarrow> f v)"

text \<open>
  The callback of \<^verbatim>\<open>this.visible_tasks.map\<close> in \<^verbatim>\<open>setup_tasks\<close>, statement by
  statement.
  \<^verbatim>\<open>task._start = date_utils.parse(task.start); task._end = date_utils.parse(task.end);\<close>
\<close>

definition step_parse :: "js_env \<Rightarrow> task \<Rightarrow> task" where
  "step_parse env t = t\<lparr>t__start := parse env (t_start t), t__end := parse env (t_end t)\<rparr>"

text \<open>\<^verbatim>\<open>if (date_utils.diff(task._end, task._start, 'year') > 10) task.end = null;\<close>\<close>

definition step_span :: "task \<Rightarrow> task" where
  "step_span t =
     (if (case diff (t__end t) (t__start t) YEAR of None \<Rightarrow> False | Some n \<Rightarrow> n > 10)
      then t\<lparr>t_end := Absent\<rparr> else t)"

text \<open>\<^verbatim>\<open>task._index = i;\<close>\<close>

definition step_index :: "nat \<Rightarrow> task \<Rightarrow> task" where
  "step_index i t = t\<lparr>t__index := Some i\<rparr>"

text \<open>
  \<^verbatim>\<open>if (!task.start && !task.end) { const today = date_utils.today();
  task._start = today; task._end = date_utils.add(today, 2, 'day'); }\<close>
\<close>

definition step_no_dates :: "js_env \<Rightarrow> task \<Rightarrow> task" where
  "step_no_dates env t =
     (if falsy (t_start t) \<and> falsy (t_end t)
      then t\<lparr>t__start := Some (today env), t__end := Some (add (today env) 2 DAY)\<rparr>
      else t)"

text \<open>
  \<^verbatim>\<open>if (!task.start && task.end) task._start = date_utils.add(task._end, -2, 'day');\<close>
  A getter called on \<^verbatim>\<open>undefined\<close> would be a \<open>TypeError\<close>.
\<close>

definition step_no_start :: "task \<Rightarrow> js_error + task" where
  "step_no_start t =
     (if falsy (t_start t) \<and> \<not> falsy (t_end t)
      then (case t__end t of
              None \<Rightarrow> Inl TypeError
            | Some e \<Rightarrow> Inr (t\<lparr>t__start := Some (add e (- 2) DAY)\<rparr>))
      else Inr t)"

text \<open>\<^verbatim>\<open>if (task.start && !task.end) task._end = date_utils.add(task._start, 2, 'day');\<close>\<close>

definition step_no_end :: "task \<Rightarrow> js_error + task" where
  "step_no_end t =
     (if \<not> falsy (t_start t) \<and> falsy (t_end t)
      then (case t__start t of
              None \<Rightarrow> Inl TypeError
            | Some b \<Rightarrow> Inr (t\<lparr>t__end := Some (add b 2 DAY)\<rparr>))
      else Inr t)"

text \<open>
  \<^verbatim>\<open>const task_end_values = date_utils.get_date_values(task._end);
  if (task_end_values.slice(3).every((d) => d === 0))
  task._end = date_utils.add(task._end, 24, 'hour');\<close>
\<close>

definition step_full_day :: "task \<Rightarrow> js_error + task" where
  "step_full_day t =
     (case t__end t of
        None \<Rightarrow> Inl TypeError
      | Some e \<Rightarrow>
          Inr (if list_all (\<lambda>d. d = Some 0) (drop 3 (get_date_values e))
               then t\<lparr>t__end := Some (add e 24 HOUR)\<rparr> else t))"

text \<open>\<^verbatim>\<open>if (!task.start || !task.end) task.invalid = true;\<close>\<close>

definition step_invalid :: "task \<Rightarrow> task" where
  "step_invalid t = (if falsy (t_start t) \<or> falsy (t_end t) then t\<lparr>t_invalid := True\<rparr> else t)"

text \<open>
  The dependencies: a string, or nothing, becomes the list of its trimmed, non-empty,
  comma-separated pieces; a list is kept.
\<close>

definition step_dependencies :: "task \<Rightarrow> task" where
  "step_dependencies t =
     (case t_dependencies t of
        DepsList ds \<Rightarrow> t
      | DepsAbsent \<Rightarrow> t\<lparr>t_dependencies := DepsList []\<rparr>
      | DepsString s \<Rightarrow>
          t\<lparr>t_dependencies :=
              DepsList (if s \<noteq> []
                        then filter (\<lambda>d. d \<noteq> []) (map trim (split_on (\<lambda>c. c = CHR '','') s))
                        else [])\<rparr>)"

text \<open>\<^verbatim>\<open>generate_id(task)\<close> and \<^verbatim>\<open>if (!task.id) task.id = generate_id(task);\<close>\<close>

definition generate_id :: "js_env \<Rightarrow> nat \<Rightarrow> task \<Rightarrow> string" where
  "generate_id env i t = t_name t @ ''_'' @ random_suffix env i"

definition step_uid :: "js_env \<Rightarrow> nat \<Rightarrow> task \<Rightarrow> task" where
  "step_uid env i t =
     (if (case t_id t of None \<Rightarrow> True | Some s \<Rightarrow> s = [])
      then t\<lparr>t_id := Some (generate_id env i t)\<rparr> else t)"

definition normalize_task :: "js_env \<Rightarrow> nat \<Rightarrow> task \<Rightarrow> js_error + task" where
  "normalize_task env i t =
     bind_err (step_no_start (step_no_dates env (step_index i (step_span (step_parse env t)))))
       (\<lambda>t. bind_err (step_no_end t)
         (\<lambda>t. bind_err (step_full_day t)
           (\<lambda>t. Inr (step_uid env i (step_dependencies (step_invalid t))))))"

text \<open>\<^verbatim>\<open>task.visible || task.visible === undefined\<close>\<close>

definition is_visible :: "task \<Rightarrow> bool" where
  "is_visible t = (t_visible t = Some True \<or> t_visible t = None)"

text \<open>
  The tasks after the \<^verbatim>\<open>map\<close>: the visible ones are normalized in place, \<open>i\<close>
  counting them; the others are left as they are.
\<close>

fun normalize_all :: "js_env \<Rightarrow> nat \<Rightarrow> task list \<Rightarrow> js_error + task list" where
  "normalize_all env i [] = Inr []"
| "normalize_all env i (t # ts) =
     (if is_visible t
      then bind_err (normalize_task env i t)
             (\<lambda>t'. bind_err (normalize_all env (Suc i) ts) (\<lambda>ts'. Inr (t' # ts')))
      else bind_err (normalize_all env i ts) (\<lambda>ts'. Inr (t # ts')))"

text \<open>\<^verbatim>\<open>setup_ancestors\<close>, on \<^verbatim>\<open>this.tasks\<close>.\<close>

type_synonym anc_map = "string \<Rightarrow> string list option"

definition push_ancestor :: "anc_map \<Rightarrow> string \<Rightarrow> string \<Rightarrow> anc_map" where
  "push_ancestor m i d =
     (let m1 = m(i \<mapsto> (case m i of None \<Rightarrow> [] | Some l \<Rightarrow> l) @ [d])
      in case m1 d of
           None \<Rightarrow> m1
         | Some ancestors \<Rightarrow> m1(i \<mapsto> (case m1 i of None \<Rightarrow> [] | Some l \<Rightarrow> l) @ ancestors))"

fun setup_ancestors_loop :: "task list \<Rightarrow> anc_map \<Rightarrow> js_error + anc_map" where
  "setup_ancestors_loop [] m = Inr m"
| "setup_ancestors_loop (t # ts) m =
     (case iterate_deps (t_dependencies t) of
        Inl e \<Rightarrow> Inl e
      | Inr ds \<Rightarrow>
          setup_ancestors_loop ts (foldl (\<lambda>m d. push_ancestor m (key_of (t_id t)) d) m ds))"

definition setup_ancestors :: "task list \<Rightarrow> js_error + anc_map" where
  "setup_ancestors tasks = setup_ancestors_loop tasks Map.empty"

text \<open>
  \<^verbatim>\<open>setup_tasks(tasks)\<close>, called on \<^verbatim>\<open>this.tasks\<close> as the constructor does: what it
  leaves in \<^verbatim>\<open>this.tasks\<close>, \<^verbatim>\<open>this.visible_tasks\<close>, \<^verbatim>\<open>this.dependency_map\<close> and
  \<^verbatim>\<open>this.ancestor_map\<close>.
\<close>

record gantt_tasks =
  g_tasks :: "task list"
  g_visible_tasks :: "task list"
  g_dependency_map :: dep_map
  g_ancestor_map :: anc_map

definition setup_tasks :: "js_env \<Rightarrow> task list \<Rightarrow> js_error + gantt_tasks" where
  "setup_tasks env tasks =
     bind_err (normalize_all env 0 tasks)
       (\<lambda>ts. bind_err (setup_dependencies ts)
         (\<lambda>dm. bind_err (setup_ancestors ts)
           (\<lambda>am. Inr \<lparr>g_tasks = ts, g_visible_tasks = filter is_visible ts,
                       g_dependency_map = dm, g_ancestor_map = am\<rparr>)))"

text \<open>A raw task record, and an environment, for the scenarios.\<close>

definition raw_task :: "string \<Rightarrow> raw_date \<Rightarrow> raw_date \<Rightarrow> bool option \<Rightarrow> task" where
  "raw_task n s e v =
     \<lparr>t_name = n, t_start = s, t_end = e, t_dependencies = DepsString [], t_id = None,
      t_type = None, t_visible = v, t__start = None, t__end = None, t__index = None,
      t_invalid = False\<rparr>"

definition env0 :: js_env where
  "env0 = \<lparr>to_integer = (\<lambda>s. None), fraction_ms = (\<lambda>s. None), now = 1705060800000,
            random_suffix = (\<lambda>i. ''k3j9x0q2ab'')\<rparr>"

text \<open>
  The same platform later on the same day, drawing other random identifiers.
\<close>

definition env1 :: js_env where
  "env1 = env0\<lparr>now := 1705096800000, random_suffix := (\<lambda>i. ''p0o9i8u7y6'')\<rparr>"

section \<open>Vocabulary for the normalized dates\<close>

text \<open>
  The end of a task after the full-day rule: moved forward 24 hours when hours,
  minutes, seconds and milliseconds are all zero.
\<close>

definition end_of_day :: "js_date \<Rightarrow> js_date" where
  "end_of_day e =
     (if list_all (\<lambda>d. d = Some 0) (drop 3 (get_date_values e)) then add e 24 HOUR else e)"

text \<open>The test of \<open>step_span\<close> on the raw dates of a task.\<close>

definition span_over :: "js_env \<Rightarrow> task \<Rightarrow> bool" where
  "span_over env t =
     (case diff (parse env (t_end t)) (parse env (t_start t)) YEAR of
        None \<Rightarrow> False | Some n \<Rightarrow> n > 10)"

text \<open>The last three statements of the callback, which leave the dates alone.\<close>

definition finish :: "js_env \<Rightarrow> nat \<Rightarrow> task \<Rightarrow> task" where
  "finish env i t = step_uid env i (step_dependencies (step_invalid t))"

text \<open>The \<^verbatim>\<open>_index\<close> a visible task at position \<open>k\<close> gets: the visible tasks before it.\<close>

definition visible_index :: "task list \<Rightarrow> nat \<Rightarrow> nat" where
  "visible_index tasks k = length (filter is_visible (take k tasks))"

text \<open>Hidden tasks are not normalized; their dependencies must be iterable as given.\<close>

definition hidden_iterable :: "task list \<Rightarrow> bool" where
  "hidden_iterable tasks = list_all (\<lambda>t. is_visible t \<or> t_dependencies t \<noteq> DepsAbsent) tasks"

text \<open>
  A time value that the arithmetic of \<^verbatim>\<open>date_utils.add\<close> treats as expected: in the year
  100 or later (the constructor reads the years 0 to 99 as 1900 to 1999), and three
  days or more before the end of the range of \<^verbatim>\<open>Date\<close>.
\<close>

definition plain_time :: "int \<Rightarrow> bool" where
  "plain_time t = (100 \<le> YearFromTime t \<and> t + 3 * msPerDay \<le> 8640000000000000)"

section \<open>Properties of \<open>update_bar_position\<close>\<close>

lemma update_attr_width [simp]:
  "getWidth (update_attr b AttrX v) = getWidth b"
  "getWidth (update_attr b AttrY v) = getWidth b"
  by (cases v; simp)+

lemma update_attr_x [simp]:
  "getX (update_attr b AttrWidth v) = getX b"
  "getX (update_attr b AttrY v) = getX b"
  by (cases v; simp)+

lemma update_attr_y [simp]:
  "getY (update_attr b AttrX v) = getY b"
  "getY (update_attr b AttrWidth v) = getY b"
  by (cases v; simp)+

lemma update_attr_same:
  "v \<noteq> NaN \<Longrightarrow> getX (update_attr b AttrX v) = v"
  "v \<noteq> NaN \<Longrightarrow> getY (update_attr b AttrY v) = v"
  "v \<noteq> NaN \<Longrightarrow> getWidth (update_attr b AttrWidth v) = v"
  by (cases v; simp)+

lemma truthy_not_zero: "truthy v \<Longrightarrow> v \<noteq> Fin 0 \<and> v \<noteq> NaN"
  by (cases v) auto

lemma x_update_bar_position:
  "getX (update_bar_position cw px pw py b) =
     (case px of Some v \<Rightarrow> if truthy v then v else getX b | None \<Rightarrow> getX b)"
  by (auto simp: update_bar_position_def Let_def update_attr_same
      dest: truthy_not_zero split: option.splits)

lemma y_update_bar_position:
  "getY (update_bar_position cw px pw py b) =
     (case py of Some v \<Rightarrow> if truthy v then v else getY b | None \<Rightarrow> getY b)"
  by (auto simp: update_bar_position_def Let_def update_attr_same
      dest: truthy_not_zero split: option.splits)

lemma width_update_bar_position:
  "getWidth (update_bar_position cw px pw py b) =
     (case pw of Some w \<Rightarrow> if truthy w \<and> js_ge w cw then w else getWidth b
      | None \<Rightarrow> getWidth b)"
  by (auto simp: update_bar_position_def Let_def update_attr_same
      dest: truthy_not_zero split: option.splits)

text \<open>
  C9. \<^verbatim>\<open>update_bar_position\<close> treats a zero \<open>x\<close>, \<open>y\<close> or \<open>width\<close> as an absent one:
  the call gives the same bar as the call without that argument, the attribute keeps
  its value, and a bar whose \<open>x\<close> is not \<open>0\<close> before the call does not have \<open>x = 0\<close>
  after it.
\<close>

theorem update_bar_position_zero_is_absent:
  "update_bar_position cw (Some (Fin 0)) pw py b = update_bar_position cw None pw py b
   \<and> update_bar_position cw px (Some (Fin 0)) py b = update_bar_position cw px None py b
   \<and> update_bar_position cw px pw (Some (Fin 0)) b = update_bar_position cw px pw None b
   \<and> getX (update_bar_position cw (Some (Fin 0)) pw py b) = getX b
   \<and> getWidth (update_bar_position cw px (Some (Fin 0)) py b) = getWidth b
   \<and> getY (update_bar_position cw px pw (Some (Fin 0)) b) = getY b
   \<and> (getX b \<noteq> Fin 0 \<longrightarrow> getX (update_bar_position cw px pw py b) \<noteq> Fin 0)"
proof -
  have absent:
    "update_bar_position cw (Some (Fin 0)) pw py b = update_bar_position cw None pw py b"
    "update_bar_position cw px (Some (Fin 0)) py b = update_bar_position cw px None py b"
    "update_bar_position cw px pw (Some (Fin 0)) b = update_bar_position cw px pw None b"
    by (simp_all add: update_bar_position_def)
  have kept:
    "getX (update_bar_position cw (Some (Fin 0)) pw py b) = getX b"
    "getWidth (update_bar_position cw px (Some (Fin 0)) py b) = getWidth b"
    "getY (update_bar_position cw px pw (Some (Fin 0)) b) = getY b"
    by (simp_all add: x_update_bar_position width_update_bar_position
        y_update_bar_position)
  have never: "getX b \<noteq> Fin 0 \<longrightarrow> getX (update_bar_position cw px pw py b) \<noteq> Fin 0"
    by (auto simp: x_update_bar_position dest: truthy_not_zero split: option.splits)
  from absent kept never show ?thesis by blast
qed

theorem update_bar_position_zero_is_absent_witness:
  "getX \<lparr>task_id = ''t1'', task_type = None, getX = Fin 38, getY = Fin 68, getWidth = Fin 76,
      ox = Fin 38, oy = Fin 68, owidth = Fin 76, finaldx = Fin 0\<rparr> \<noteq> Fin 0
   \<and> getX (update_bar_position (Fin 38) (Some (Fin 0)) None None
        \<lparr>task_id = ''t1'', task_type = None, getX = Fin 38, getY = Fin 68, getWidth = Fin 76,
         ox = Fin 38, oy = Fin 68, owidth = Fin 76, finaldx = Fin 0\<rparr>) \<noteq> Fin 0"
  using update_bar_position_zero_is_absent
    [of "Fin 38" None None
      "\<lparr>task_id = ''t1'', task_type = None, getX = Fin 38, getY = Fin 68, getWidth = Fin 76,
        ox = Fin 38, oy = Fin 68, owidth = Fin 76, finaldx = Fin 0\<rparr>" "Some (Fin 0)"]
  by (simp add: update_bar_position_def)

subsection \<open>Widths below one column\<close>

lemma js_lt_not_ge: "js_lt a b \<Longrightarrow> \<not> js_ge a b"
  by (simp add: js_ge_def)

lemma js_ge_positive: "js_lt (Fin 0) c \<Longrightarrow> js_ge w c \<Longrightarrow> js_lt (Fin 0) w"
  by (cases w; cases c) (auto simp: js_ge_def)

text \<open>
  A requested width below \<open>column_width\<close> is not written: the \<open>width\<close> attribute
  keeps its value in \<^verbatim>\<open>update_bar_position\<close>, hence in both resize branches, and a
  right resize leaves the whole bar as it was. With a positive \<open>column_width\<close>, a bar
  of positive width keeps a positive width through every call.
\<close>

lemma narrow_width_kept:
  "(js_lt w cw \<longrightarrow> getWidth (update_bar_position cw px (Some w) py b) = getWidth b)
   \<and> (js_lt (js_sub (owidth b) (finaldx b)) cw \<longrightarrow> getWidth (resize_left cw b) = getWidth b)
   \<and> (js_lt (js_add (owidth b) (finaldx b)) cw \<longrightarrow> resize_right cw b = b)
   \<and> (js_lt (Fin 0) cw \<and> js_lt (Fin 0) (getWidth b) \<longrightarrow>
        js_lt (Fin 0) (getWidth (update_bar_position cw px pw py b)))"
proof -
  have kept: "getWidth (update_bar_position cw px (Some w) py b) = getWidth b"
    if "js_lt w cw" for w px py
    using that by (simp add: width_update_bar_position js_lt_not_ge)
  have right: "resize_right cw b = b" if "js_lt (js_add (owidth b) (finaldx b)) cw"
    using that by (simp add: resize_right_def update_bar_position_def js_lt_not_ge)
  have pos: "js_lt (Fin 0) (getWidth (update_bar_position cw px pw py b))"
    if "js_lt (Fin 0) cw" "js_lt (Fin 0) (getWidth b)"
    using that
    by (auto simp: width_update_bar_position split: option.splits
        intro: js_ge_positive)
  from kept right pos show ?thesis
    unfolding resize_left_def by blast
qed

text \<open>
  C8 fails on the code. The width guard refuses a width below one column, but the
  \<open>x\<close> of a left resize is written whenever it is truthy. A bar at \<open>x = 100\<close> of width
  \<open>38\<close> (one Day column), dragged by its left handle one column to the right, asks
  for \<open>x = 138\<close> and \<open>width = 0\<close>: the width is refused, the \<open>x\<close> is written, and the
  bar has moved to \<open>x = 138\<close>, where the update was to be left out. The right resize
  that asks for the same width leaves the bar where it is.
\<close>

theorem resize_left_narrow_moves_bar:
  "js_lt (js_sub (Fin 38) (Fin 38)) (Fin 38)
   \<and> resize_left (Fin 38)
        \<lparr>task_id = ''t1'', task_type = None, getX = Fin 100, getY = Fin 68, getWidth = Fin 38,
         ox = Fin 100, oy = Fin 68, owidth = Fin 38, finaldx = Fin 38\<rparr>
       = \<lparr>task_id = ''t1'', task_type = None, getX = Fin 138, getY = Fin 68, getWidth = Fin 38,
          ox = Fin 100, oy = Fin 68, owidth = Fin 38, finaldx = Fin 38\<rparr>
   \<and> resize_left (Fin 38)
        \<lparr>task_id = ''t1'', task_type = None, getX = Fin 100, getY = Fin 68, getWidth = Fin 38,
         ox = Fin 100, oy = Fin 68, owidth = Fin 38, finaldx = Fin 38\<rparr>
       \<noteq> \<lparr>task_id = ''t1'', task_type = None, getX = Fin 100, getY = Fin 68, getWidth = Fin 38,
          ox = Fin 100, oy = Fin 68, owidth = Fin 38, finaldx = Fin 38\<rparr>
   \<and> js_lt (js_add (Fin 38) (Fin (- 38))) (Fin 38)
   \<and> resize_right (Fin 38)
        \<lparr>task_id = ''t1'', task_type = None, getX = Fin 100, getY = Fin 68, getWidth = Fin 38,
         ox = Fin 100, oy = Fin 68, owidth = Fin 38, finaldx = Fin (- 38)\<rparr>
       = \<lparr>task_id = ''t1'', task_type = None, getX = Fin 100, getY = Fin 68, getWidth = Fin 38,
          ox = Fin 100, oy = Fin 68, owidth = Fin 38, finaldx = Fin (- 38)\<rparr>"
  by (simp add: resize_left_def resize_right_def update_bar_position_def js_sub_def js_ge_def)

section \<open>Properties of \<open>get_snap_position\<close>\<close>

lemma snap_to_nonneg:
  assumes "0 \<le> d" "0 < q"
  shows "snap_to (Fin d) (Fin q) (Fin (q / 2)) = Fin (q * of_int \<lfloor>d / q + 1 / 2\<rfloor>)"
proof -
  define k where "k = \<lfloor>d / q\<rfloor>"
  define f where "f = d / q - of_int k"
  have f: "0 \<le> f" "f < 1" unfolding f_def k_def by linarith+
  have dq: "d = q * (of_int k + f)" using assms by (simp add: f_def field_simps)
  have nn: "0 \<le> d / q" using assms by simp
  have rem: "js_rem (Fin d) (Fin q) = Fin (q * f)"
    using assms nn by (simp add: trunc_rat_def k_def[symmetric] f_def field_simps)
  have lt: "(q * f < q / 2) = (f < 1 / 2)" using assms by (simp add: field_simps)
  have fl: "\<lfloor>d / q + 1 / 2\<rfloor> = (if f < 1 / 2 then k else k + 1)"
  proof -
    have "d / q + 1 / 2 = of_int k + (f + 1 / 2)" by (simp add: f_def)
    then show ?thesis using f by (auto simp: floor_eq_iff)
  qed
  have base: "d - q * f = q * of_int k" by (subst dq) (simp add: algebra_simps)
  show ?thesis
  proof (cases "f < 1 / 2")
    case True
    with lt have "q * f < q / 2" by simp
    with True show ?thesis
      unfolding snap_to_def Let_def rem by (simp add: js_sub_def fl base)
  next
    case False
    with lt have "\<not> q * f < q / 2" by simp
    with False show ?thesis
      unfolding snap_to_def Let_def rem by (simp add: js_sub_def fl base ring_distribs)
  qed
qed

text \<open>A negative delta is cut towards zero: the remainder is never positive.\<close>

lemma snap_to_negative:
  assumes "d < 0" "0 < q"
  shows "snap_to (Fin d) (Fin q) (Fin (q / 2)) = Fin (q * of_int \<lceil>d / q\<rceil>)"
proof -
  have neg: "d / q < 0" using assms by (simp add: field_simps)
  have "q * (d / q) \<le> q * of_int \<lceil>d / q\<rceil>"
    using assms by (intro mult_left_mono le_of_int_ceiling) simp
  moreover have "q * (d / q) = d" using assms by simp
  ultimately have "d \<le> q * of_int \<lceil>d / q\<rceil>" by simp
  then have "d - q * of_int \<lceil>d / q\<rceil> < q / 2" using assms by linarith
  with neg assms show ?thesis
    by (simp add: snap_to_def Let_def trunc_rat_def js_sub_def)
qed

text \<open>
  C3, as the code has it. For a delta \<open>d \<ge> 0\<close> and a positive \<open>column_width\<close>,
  \<^verbatim>\<open>get_snap_position\<close> returns the multiple of the unit nearest to \<open>d\<close>, a midpoint
  going up: \<open>unit * \<lfloor>d / unit + 1/2\<rfloor>\<close>, the unit being \<open>column_width / 7\<close> in Week
  view, \<open>column_width / 30\<close> in Month view and \<open>column_width\<close> in every other view.
  Under the Day scale (\<open>column_width = 38\<close>) a drag of 19px and a drag of 20px both
  snap to 38px; 18px snaps to 0.
\<close>

theorem get_snap_position_nearest:
  assumes "0 \<le> d" and "0 < cw" and "column_width opts = Fin cw"
  shows "get_snap_position opts (Fin d) =
           (let unit = (if view_mode opts = ''Week'' then cw / 7
                        else if view_mode opts = ''Month'' then cw / 30 else cw)
            in Fin (unit * of_int \<lfloor>d / unit + 1 / 2\<rfloor>))
         \<and> get_snap_position (update_view_scale default_options ''Day'') (Fin 19) = Fin 38
         \<and> get_snap_position (update_view_scale default_options ''Day'') (Fin 20) = Fin 38
         \<and> get_snap_position (update_view_scale default_options ''Day'') (Fin 18) = Fin 0"
proof -
  have week: "snap_to (Fin d) (Fin (cw / 7)) (Fin (cw / 14))
                = Fin (cw / 7 * of_int \<lfloor>d / (cw / 7) + 1 / 2\<rfloor>)"
    using snap_to_nonneg [of d "cw / 7"] assms by simp
  have month: "snap_to (Fin d) (Fin (cw / 30)) (Fin (cw / 60))
                = Fin (cw / 30 * of_int \<lfloor>d / (cw / 30) + 1 / 2\<rfloor>)"
    using snap_to_nonneg [of d "cw / 30"] assms by simp
  have other: "snap_to (Fin d) (Fin cw) (Fin (cw / 2))
                = Fin (cw * of_int \<lfloor>d / cw + 1 / 2\<rfloor>)"
    using snap_to_nonneg [of d cw] assms by simp
  have general: "get_snap_position opts (Fin d) =
           (let unit = (if view_mode opts = ''Week'' then cw / 7
                        else if view_mode opts = ''Month'' then cw / 30 else cw)
            in Fin (unit * of_int \<lfloor>d / unit + 1 / 2\<rfloor>))"
    using assms week month other
    by (simp add: get_snap_position_def view_is_def Let_def)
  have day: "column_width (update_view_scale default_options ''Day'') = Fin 38"
       "view_mode (update_view_scale default_options ''Day'') = ''Day''"
    by (simp_all add: update_view_scale_def default_options_def)
  have d19: "get_snap_position (update_view_scale default_options ''Day'') (Fin 19) = Fin 38"
    by code_simp
  have d20: "get_snap_position (update_view_scale default_options ''Day'') (Fin 20) = Fin 38"
    by code_simp
  have d18: "get_snap_position (update_view_scale default_options ''Day'') (Fin 18) = Fin 0"
    by code_simp
  from general d19 d20 d18 show ?thesis by blast
qed

theorem get_snap_position_nearest_witness:
  "(0::rat) \<le> 57 \<and> (0::rat) < 38
   \<and> column_width (update_view_scale default_options ''Day'') = Fin 38
   \<and> get_snap_position (update_view_scale default_options ''Day'') (Fin 57) = Fin 76"
proof -
  have cw: "column_width (update_view_scale default_options ''Day'') = Fin 38"
    and vm: "view_mode (update_view_scale default_options ''Day'') = ''Day''"
    by (simp_all add: update_view_scale_def default_options_def)
  have fl: "\<lfloor>(57::rat) / 38 + 1 / 2\<rfloor> = 2" by (simp add: floor_eq_iff)
  from get_snap_position_nearest [of 57 38, OF _ _ cw]
  have "get_snap_position (update_view_scale default_options ''Day'') (Fin 57) = Fin 76"
    by (simp add: vm Let_def fl)
  with cw show ?thesis by simp
qed

text \<open>
  The property as specified fails twice under the Day scale: a drag of 19px, the exact
  midpoint, snaps to 38px and not to 0; and a drag of 20px to the left snaps to 0,
  although \<open>-38\<close> is the nearest multiple.
\<close>

theorem get_snap_position_counterexample:
  "get_snap_position (update_view_scale default_options ''Day'') (Fin 19) = Fin 38
   \<and> get_snap_position (update_view_scale default_options ''Day'') (Fin 19) \<noteq> Fin 0
   \<and> get_snap_position (update_view_scale default_options ''Day'') (Fin (- 20)) = Fin 0
   \<and> get_snap_position (update_view_scale default_options ''Day'') (Fin (- 20)) \<noteq> Fin (- 38)"
proof -
  have day: "column_width (update_view_scale default_options ''Day'') = Fin 38"
       "view_mode (update_view_scale default_options ''Day'') = ''Day''"
    by (simp_all add: update_view_scale_def default_options_def)
  have a: "get_snap_position (update_view_scale default_options ''Day'') (Fin 19) = Fin 38"
    by code_simp
  have b: "get_snap_position (update_view_scale default_options ''Day'') (Fin (- 20)) = Fin 0"
    by code_simp
  from a b show ?thesis by simp
qed

section \<open>Properties of the envelope update\<close>

lemma envelope_dist_foldl:
  "envelope_dist vb ids acc = foldl envelope_step acc (List.map_filter (get_bar vb) ids)"
  by (induction ids arbitrary: acc) (simp_all add: List.map_filter_simps split: option.splits)

lemma envelope_src_dist:
  "\<forall>i\<in>set ids. get_bar vb i \<noteq> None \<Longrightarrow>
   envelope_src vb ids acc = Inr (envelope_dist vb ids acc)"
  by (induction ids arbitrary: acc) (auto split: option.splits)

lemma finite_bar_edges:
  assumes "finite_bar b"
  obtains r w where "getX b = Fin r" "getWidth b = Fin w" "bar_left b = r" "bar_right b = w + r"
  using assms
  by (auto simp: finite_bar_def bar_left_def bar_right_def split: jsnum.splits)

lemma envelope_step_finite:
  assumes "finite_bar b"
  shows "envelope_step (Fin l, Fin h) b = (Fin (min (bar_left b) l), Fin (max (bar_right b) h))"
proof -
  from assms obtain r w where "getX b = Fin r" "getWidth b = Fin w"
    "bar_left b = r" "bar_right b = w + r" by (rule finite_bar_edges)
  then show ?thesis
    by (simp add: envelope_step_def js_gt_def Let_def min_def max_def)
qed

lemma envelope_step_initial:
  assumes "finite_bar b"
  shows "envelope_step (PosInf, NegInf) b = (Fin (bar_left b), Fin (bar_right b))"
proof -
  from assms obtain r w where "getX b = Fin r" "getWidth b = Fin w"
    "bar_left b = r" "bar_right b = w + r" by (rule finite_bar_edges)
  then show ?thesis
    by (simp add: envelope_step_def js_gt_def Let_def)
qed

lemma foldl_envelope_finite:
  assumes "\<forall>d\<in>set ds. finite_bar d"
  shows "foldl envelope_step (Fin l, Fin h) ds =
           (Fin (fold min (map bar_left ds) l), Fin (fold max (map bar_right ds) h))"
  using assms
  by (induction ds arbitrary: l h) (simp_all add: envelope_step_finite)

lemma foldl_envelope_initial:
  assumes "\<forall>d\<in>set ds. finite_bar d" and "ds \<noteq> []"
  shows "foldl envelope_step (PosInf, NegInf) ds =
           (Fin (Min (bar_left ` set ds)), Fin (Max (bar_right ` set ds)))"
proof -
  from assms(2) obtain d ds' where ds: "ds = d # ds'" by (cases ds) auto
  have "Min (set (bar_left d # map bar_left ds')) = fold min (map bar_left ds') (bar_left d)"
    by (rule Min.set_eq_fold)
  moreover
  have "Max (set (bar_right d # map bar_right ds')) = fold max (map bar_right ds') (bar_right d)"
    by (rule Max.set_eq_fold)
  ultimately show ?thesis
    using assms(1) by (simp add: ds envelope_step_initial foldl_envelope_finite)
qed


lemma envelope_of_descendants:
  assumes ds: "ds = List.map_filter (get_bar vb) ids" "ds \<noteq> []"
    and fin: "\<forall>d\<in>set ds. finite_bar d"
  shows "envelope_dist vb ids (PosInf, NegInf) =
           (Fin (Min (bar_left ` set ds)), Fin (Max (bar_right ` set ds)))"
  using assms by (simp add: envelope_dist_foldl foldl_envelope_initial)

lemma update_bar_position_x_width:
  assumes "l \<noteq> 0" "0 < cw" "cw \<le> w"
  shows "update_bar_position (Fin cw) (Some (Fin l)) (Some (Fin w)) None a =
           a\<lparr>getX := Fin l, getWidth := Fin w\<rparr>"
  using assms by (simp add: update_bar_position_def js_ge_def)

lemma update_bar_position_width_only:
  assumes "0 < cw" "cw \<le> w"
  shows "update_bar_position (Fin cw) None (Some (Fin w)) None a = a\<lparr>getWidth := Fin w\<rparr>"
  using assms by (simp add: update_bar_position_def js_ge_def)

text \<open>
  What the branches write. For an ancestor bar of type "project" or "tag" with at
  least one visible descendant bar (all of finite geometry) and a positive
  \<open>column_width\<close>, let \<open>lo\<close> be the least left edge and \<open>hi\<close> the greatest right edge of
  the visible descendants, and \<open>x0\<close> the bar's \<open>ox\<close>. In the bundled build: if
  \<open>lo \<noteq> x0\<close>, \<open>lo \<noteq> 0\<close> and the envelope is at least one column wide, the bar gets
  \<open>x = lo\<close> and \<open>width = hi - lo\<close>; if \<open>lo = x0\<close> and \<open>hi - x0\<close> is at least one
  column, only the width is written, \<open>width = hi - x0\<close>, whatever \<open>x\<close> the bar has
  by then. \<^verbatim>\<open>src/index.js\<close> does the same when every descendant has a visible bar
  and \<open>lo > x0\<close> or \<open>lo = x0\<close>.
\<close>

lemma update_ancestor_bar_branches:
  assumes ty: "task_type a = Some ''project'' \<or> task_type a = Some ''tag''"
    and ds: "ds = List.map_filter (get_bar vb) ids" "ds \<noteq> []"
    and fin: "\<forall>d\<in>set ds. finite_bar d"
    and ox: "ox a = Fin x0"
    and cw: "0 < cw"
    and lo: "lo = Min (bar_left ` set ds)"
    and hi: "hi = Max (bar_right ` set ds)"
  shows "(lo \<noteq> x0 \<and> lo \<noteq> 0 \<and> cw \<le> hi - lo \<longrightarrow>
            update_ancestor_bar_dist (Fin cw) vb ids a
              = a\<lparr>getX := Fin lo, getWidth := Fin (hi - lo)\<rparr>)
       \<and> (lo = x0 \<and> cw \<le> hi - x0 \<longrightarrow>
            update_ancestor_bar_dist (Fin cw) vb ids a = a\<lparr>getWidth := Fin (hi - x0)\<rparr>)
       \<and> ((\<forall>i\<in>set ids. get_bar vb i \<noteq> None) \<and> x0 < lo \<and> lo \<noteq> 0 \<and> cw \<le> hi - lo \<longrightarrow>
            update_ancestor_bar_src (Fin cw) vb ids a
              = Inr (a\<lparr>getX := Fin lo, getWidth := Fin (hi - lo)\<rparr>))
       \<and> ((\<forall>i\<in>set ids. get_bar vb i \<noteq> None) \<and> lo = x0 \<and> cw \<le> hi - x0 \<longrightarrow>
            update_ancestor_bar_src (Fin cw) vb ids a = Inr (a\<lparr>getWidth := Fin (hi - x0)\<rparr>))"
proof -
  have env: "envelope_dist vb ids (PosInf, NegInf) = (Fin lo, Fin hi)"
    using envelope_of_descendants [OF ds fin] lo hi by simp
  have moved: "update_ancestor_bar_dist (Fin cw) vb ids a
                 = a\<lparr>getX := Fin lo, getWidth := Fin (hi - lo)\<rparr>"
    if "lo \<noteq> x0" "lo \<noteq> 0" "cw \<le> hi - lo"
    using that ty cw
    by (auto simp: update_ancestor_bar_dist_def env ox js_gt_def js_sub_def Let_def
        update_bar_position_x_width)
  have still: "update_ancestor_bar_dist (Fin cw) vb ids a = a\<lparr>getWidth := Fin (hi - x0)\<rparr>"
    if "lo = x0" "cw \<le> hi - x0"
    using that ty cw
    by (auto simp: update_ancestor_bar_dist_def env ox js_gt_def js_sub_def Let_def
        update_bar_position_width_only)
  have env_src: "envelope_src vb ids (PosInf, NegInf) = Inr (Fin lo, Fin hi)"
    if "\<forall>i\<in>set ids. get_bar vb i \<noteq> None"
    using that env by (simp add: envelope_src_dist)
  have moved_src: "update_ancestor_bar_src (Fin cw) vb ids a
                 = Inr (a\<lparr>getX := Fin lo, getWidth := Fin (hi - lo)\<rparr>)"
    if "\<forall>i\<in>set ids. get_bar vb i \<noteq> None" "x0 < lo" "lo \<noteq> 0" "cw \<le> hi - lo"
    using that(2-) ty cw
    by (auto simp: update_ancestor_bar_src_def env_src [OF that(1)] ox js_gt_def js_sub_def
        Let_def update_bar_position_x_width)
  have still_src: "update_ancestor_bar_src (Fin cw) vb ids a
                 = Inr (a\<lparr>getWidth := Fin (hi - x0)\<rparr>)"
    if "\<forall>i\<in>set ids. get_bar vb i \<noteq> None" "lo = x0" "cw \<le> hi - x0"
    using that(2-) ty cw
    by (auto simp: update_ancestor_bar_src_def env_src [OF that(1)] ox js_gt_def js_sub_def
        Let_def update_bar_position_width_only)
  from moved still moved_src still_src show ?thesis by blast
qed

text \<open>
  A "project" bar that starts the gesture at \<open>x = 0\<close> and has not moved, with
  children spanning \<open>[0, 76]\<close> and \<open>[114, 190]\<close>, ends with \<open>x = 0\<close> and
  \<open>width = 190\<close>.
\<close>

lemma update_ancestor_bar_at_rest:
  "(task_type (plain_bar ''p'' (Some ''project'') 0 228) = Some ''project''
      \<or> task_type (plain_bar ''p'' (Some ''project'') 0 228) = Some ''tag'')
   \<and> [plain_bar ''c1'' None 0 76, plain_bar ''c2'' None 114 76]
       = List.map_filter
           (get_bar [plain_bar ''c1'' None 0 76, plain_bar ''c2'' None 114 76,
                     plain_bar ''p'' (Some ''project'') 0 228])
           [''c1'', ''c2'']
   \<and> finite_bar (plain_bar ''c1'' None 0 76) \<and> finite_bar (plain_bar ''c2'' None 114 76)
   \<and> get_bar [plain_bar ''c1'' None 0 76, plain_bar ''c2'' None 114 76,
               plain_bar ''p'' (Some ''project'') 0 228] ''c1'' \<noteq> None
   \<and> get_bar [plain_bar ''c1'' None 0 76, plain_bar ''c2'' None 114 76,
               plain_bar ''p'' (Some ''project'') 0 228] ''c2'' \<noteq> None
   \<and> ox (plain_bar ''p'' (Some ''project'') 0 228) = Fin 0
   \<and> (0::rat) = Min (bar_left ` set [plain_bar ''c1'' None 0 76, plain_bar ''c2'' None 114 76])
   \<and> (190::rat) = Max (bar_right ` set [plain_bar ''c1'' None 0 76, plain_bar ''c2'' None 114 76])
   \<and> update_ancestor_bar_dist (Fin 38)
        [plain_bar ''c1'' None 0 76, plain_bar ''c2'' None 114 76,
         plain_bar ''p'' (Some ''project'') 0 228]
        [''c1'', ''c2''] (plain_bar ''p'' (Some ''project'') 0 228)
       = plain_bar ''p'' (Some ''project'') 0 228\<lparr>getWidth := Fin 190\<rparr>
   \<and> update_ancestor_bar_src (Fin 38)
        [plain_bar ''c1'' None 0 76, plain_bar ''c2'' None 114 76,
         plain_bar ''p'' (Some ''project'') 0 228]
        [''c1'', ''c2''] (plain_bar ''p'' (Some ''project'') 0 228)
       = Inr (plain_bar ''p'' (Some ''project'') 0 228\<lparr>getWidth := Fin 190\<rparr>)"
proof -
  let ?c1 = "plain_bar ''c1'' None 0 76" and ?c2 = "plain_bar ''c2'' None 114 76"
  let ?p = "plain_bar ''p'' (Some ''project'') 0 228"
  have ty: "task_type ?p = Some ''project'' \<or> task_type ?p = Some ''tag''"
    by (simp add: plain_bar_def)
  have ds: "[?c1, ?c2] = List.map_filter (get_bar [?c1, ?c2, ?p]) [''c1'', ''c2'']"
    by (simp add: List.map_filter_simps get_bar_def plain_bar_def)
  have ne: "[?c1, ?c2] \<noteq> []" by simp
  have fin: "\<forall>d\<in>set [?c1, ?c2]. finite_bar d"
    by (simp add: finite_bar_def plain_bar_def)
  have found: "\<forall>i\<in>set [''c1'', ''c2'']. get_bar [?c1, ?c2, ?p] i \<noteq> None"
    by (simp add: get_bar_def plain_bar_def)
  have ox: "ox ?p = Fin 0" by (simp add: plain_bar_def)
  have lo: "(0::rat) = Min (bar_left ` set [?c1, ?c2])"
    by (simp add: bar_left_def plain_bar_def)
  have hi: "(190::rat) = Max (bar_right ` set [?c1, ?c2])"
    by (simp add: bar_right_def plain_bar_def)
  have cw: "(0::rat) < 38" by simp
  from update_ancestor_bar_branches [OF ty ds ne fin ox cw lo hi] found
  have "update_ancestor_bar_dist (Fin 38) [?c1, ?c2, ?p] [''c1'', ''c2''] ?p
          = ?p\<lparr>getWidth := Fin 190\<rparr>"
    and "update_ancestor_bar_src (Fin 38) [?c1, ?c2, ?p] [''c1'', ''c2''] ?p
          = Inr (?p\<lparr>getWidth := Fin 190\<rparr>)"
    by simp_all
  moreover have "finite_bar ?c1" "finite_bar ?c2"
    by (simp_all add: finite_bar_def plain_bar_def)
  moreover have "get_bar [?c1, ?c2, ?p] ''c1'' \<noteq> None" "get_bar [?c1, ?c2, ?p] ''c2'' \<noteq> None"
    by (simp_all add: get_bar_def plain_bar_def)
  moreover note ty ds ox lo hi
  ultimately show ?thesis by blast
qed

text \<open>
  C5 fails on the code. A "project" bar at \<open>x = 38\<close> of width \<open>152\<close> over children
  spanning \<open>[38, 114]\<close> and \<open>[114, 190]\<close>, Day scale.

  \<^item> The first child is dragged one column to the right and, in the same gesture,
    back. The first step moves the bar to \<open>x = 76\<close>, width \<open>114\<close>. At the second the
    left edge of the envelope equals \<open>ox\<close> again, the branch taken writes the width
    \<open>190 - 38\<close> only, and the bar is left at \<open>x = 76\<close> with width \<open>152\<close>: it spans
    \<open>[76, 228]\<close> over children that span \<open>[38, 190]\<close>, in both builds.

  \<^item> The first child is moved to \<open>[0, 76]\<close>. The bundled build asks for \<open>x = 0\<close>,
    which \<^verbatim>\<open>update_bar_position\<close> drops, and the bar ends at \<open>x = 38\<close> with width
    \<open>190\<close>; \<^verbatim>\<open>src/index.js\<close> has no branch for an edge that moved left and leaves the
    bar at \<open>x = 38\<close> with width \<open>152\<close>. Neither is \<open>x = 0\<close>, \<open>width = 190\<close>.

  \<^item> The second child has no visible bar: \<^verbatim>\<open>src/index.js\<close> raises a \<open>TypeError\<close>,
    where the bundled build skips it.
\<close>

theorem update_ancestor_bar_loses_envelope:
  "update_ancestor_bar_dist (Fin 38)
     [(plain_bar ''c1'' None 38 76)\<lparr>getX := Fin 76\<rparr>, plain_bar ''c2'' None 114 76,
      plain_bar ''p'' (Some ''project'') 38 152]
     [''c1'', ''c2''] (plain_bar ''p'' (Some ''project'') 38 152)
    = (plain_bar ''p'' (Some ''project'') 38 152)\<lparr>getX := Fin 76, getWidth := Fin 114\<rparr>
   \<and> update_ancestor_bar_dist (Fin 38)
       [plain_bar ''c1'' None 38 76, plain_bar ''c2'' None 114 76,
        (plain_bar ''p'' (Some ''project'') 38 152)\<lparr>getX := Fin 76, getWidth := Fin 114\<rparr>]
       [''c1'', ''c2'']
       ((plain_bar ''p'' (Some ''project'') 38 152)\<lparr>getX := Fin 76, getWidth := Fin 114\<rparr>)
      = (plain_bar ''p'' (Some ''project'') 38 152)\<lparr>getX := Fin 76, getWidth := Fin 152\<rparr>
   \<and> update_ancestor_bar_src (Fin 38)
       [(plain_bar ''c1'' None 38 76)\<lparr>getX := Fin 76\<rparr>, plain_bar ''c2'' None 114 76,
        plain_bar ''p'' (Some ''project'') 38 152]
       [''c1'', ''c2''] (plain_bar ''p'' (Some ''project'') 38 152)
      = Inr ((plain_bar ''p'' (Some ''project'') 38 152)\<lparr>getX := Fin 76, getWidth := Fin 114\<rparr>)
   \<and> update_ancestor_bar_src (Fin 38)
       [plain_bar ''c1'' None 38 76, plain_bar ''c2'' None 114 76,
        (plain_bar ''p'' (Some ''project'') 38 152)\<lparr>getX := Fin 76, getWidth := Fin 114\<rparr>]
       [''c1'', ''c2'']
       ((plain_bar ''p'' (Some ''project'') 38 152)\<lparr>getX := Fin 76, getWidth := Fin 114\<rparr>)
      = Inr ((plain_bar ''p'' (Some ''project'') 38 152)\<lparr>getX := Fin 76, getWidth := Fin 152\<rparr>)
   \<and> envelope_dist
       [plain_bar ''c1'' None 38 76, plain_bar ''c2'' None 114 76] [''c1'', ''c2'']
       (PosInf, NegInf) = (Fin 38, Fin 190)
   \<and> update_ancestor_bar_dist (Fin 38)
       [plain_bar ''c1'' None 0 76, plain_bar ''c2'' None 114 76,
        plain_bar ''p'' (Some ''project'') 38 152]
       [''c1'', ''c2''] (plain_bar ''p'' (Some ''project'') 38 152)
      = (plain_bar ''p'' (Some ''project'') 38 152)\<lparr>getWidth := Fin 190\<rparr>
   \<and> update_ancestor_bar_src (Fin 38)
       [plain_bar ''c1'' None 0 76, plain_bar ''c2'' None 114 76,
        plain_bar ''p'' (Some ''project'') 38 152]
       [''c1'', ''c2''] (plain_bar ''p'' (Some ''project'') 38 152)
      = Inr (plain_bar ''p'' (Some ''project'') 38 152)
   \<and> update_ancestor_bar_src (Fin 38)
       [plain_bar ''c1'' None 38 76, plain_bar ''p'' (Some ''project'') 38 152]
       [''c1'', ''c2''] (plain_bar ''p'' (Some ''project'') 38 152)
      = Inl TypeError
   \<and> update_ancestor_bar_dist (Fin 38)
       [plain_bar ''c1'' None 38 76, plain_bar ''p'' (Some ''project'') 38 152]
       [''c1'', ''c2''] (plain_bar ''p'' (Some ''project'') 38 152)
      = (plain_bar ''p'' (Some ''project'') 38 152)\<lparr>getWidth := Fin 76\<rparr>"
  by (simp add: update_ancestor_bar_dist_def update_ancestor_bar_src_def plain_bar_def
      get_bar_def envelope_step_def js_gt_def js_sub_def js_ge_def update_bar_position_def
      Let_def)

section \<open>Properties of the dependency graph\<close>

lemma setup_dependencies_cycle:
  "setup_dependencies [mk_task ''A'' [''B''], mk_task ''B'' [''A'']] = Inr cycle_map"
  by (simp add: setup_dependencies_def mk_task_def push_dep_def cycle_map_def)

lemma lookup_cycle:
  "lookup_deps cycle_map (Some ''A'') = [Some ''B'']"
  "lookup_deps cycle_map (Some ''B'') = [Some ''A'']"
  by (simp_all add: lookup_deps_def cycle_map_def)

lemma diverges_aux:
  assumes run: "dependent_tasks_loop m out tp = Some r"
  shows "\<not> (m = cycle_map \<and> (tp = [Some ''A''] \<or> tp = [Some ''B'']))"
proof (rule dependent_tasks_loop.raw_induct
    [where P = "\<lambda>m out tp r. \<not> (m = cycle_map \<and> (tp = [Some ''A''] \<or> tp = [Some ''B'']))",
      OF _ run])
  fix loop :: "dep_map \<Rightarrow> string option list \<Rightarrow> string option list \<Rightarrow> string option list option"
  fix m out tp r
  assume IH: "\<And>m out tp r. loop m out tp = Some r \<Longrightarrow>
                \<not> (m = cycle_map \<and> (tp = [Some ''A''] \<or> tp = [Some ''B'']))"
    and body: "(if tp = [] then Some out
                else let deps = concat (map (lookup_deps m) tp)
                     in loop m (out @ deps) (filter (\<lambda>d. d \<notin> set tp) deps)) = Some r"
  show "\<not> (m = cycle_map \<and> (tp = [Some ''A''] \<or> tp = [Some ''B'']))"
  proof
    assume a: "m = cycle_map \<and> (tp = [Some ''A''] \<or> tp = [Some ''B''])"
    then consider "tp = [Some ''A'']" | "tp = [Some ''B'']" by blast
    then show False
    proof cases
      case 1
      with a body have "loop cycle_map (out @ [Some ''B'']) [Some ''B''] = Some r"
        by (simp add: lookup_cycle Let_def)
      from IH [OF this] show False by simp
    next
      case 2
      with a body have "loop cycle_map (out @ [Some ''A'']) [Some ''A''] = Some r"
        by (simp add: lookup_cycle Let_def)
      from IH [OF this] show False by simp
    qed
  qed
qed

lemma dependent_tasks_cycle_diverges: "get_all_dependent_tasks cycle_map ''A'' = None"
proof -
  have "dependent_tasks_loop cycle_map [] [Some ''A''] = None"
    using diverges_aux [of cycle_map "[]" "[Some ''A'']"]
    by (cases "dependent_tasks_loop cycle_map [] [Some ''A'']") auto
  then show ?thesis by (simp add: get_all_dependent_tasks_def)
qed

lemma dependent_tasks_chain:
  "get_all_dependent_tasks [''A'' \<mapsto> [Some ''B''], ''B'' \<mapsto> [Some ''C'']] ''A''
     = Some [''B'', ''C'']"
  by (simp add: get_all_dependent_tasks_def dependent_tasks_loop.simps lookup_deps_def
      js_Boolean_def)

text \<open>
  C1 fails on the code. With A depending on B and B on A, \<^verbatim>\<open>setup_dependencies\<close>
  builds the map \<open>B \<mapsto> [A], A \<mapsto> [B]\<close> and \<^verbatim>\<open>get_all_dependent_tasks("A")\<close> never
  returns: \<^verbatim>\<open>to_process\<close> is filtered against the current frontier only, so it
  alternates between \<open>[B]\<close> and \<open>[A]\<close>. With A depending on itself the loop ends,
  and the result is \<open>[A]\<close>: the id itself.
\<close>

theorem get_all_dependent_tasks_cycle:
  "(case setup_dependencies [mk_task ''A'' [''B''], mk_task ''B'' [''A'']] of
      Inl e \<Rightarrow> False
    | Inr m \<Rightarrow> get_all_dependent_tasks m ''A'' = None)
   \<and> (case setup_dependencies [mk_task ''A'' [''A'']] of
      Inl e \<Rightarrow> False
    | Inr m \<Rightarrow> get_all_dependent_tasks m ''A'' = Some [''A''])"
proof -
  have self: "setup_dependencies [mk_task ''A'' [''A'']] = Inr [''A'' \<mapsto> [Some ''A'']]"
    by (simp add: setup_dependencies_def mk_task_def push_dep_def)
  have "get_all_dependent_tasks [''A'' \<mapsto> [Some ''A'']] ''A'' = Some [''A'']"
    by (simp add: get_all_dependent_tasks_def dependent_tasks_loop.simps lookup_deps_def
        js_Boolean_def)
  with self show ?thesis
    by (simp add: setup_dependencies_cycle dependent_tasks_cycle_diverges)
qed

section \<open>Properties of \<open>make_arrows\<close>\<close>













section \<open>Properties of dates\<close>

lemma div_bounds:
  fixes a :: int
  shows "4 * (a div 4) \<le> a" "a \<le> 4 * (a div 4) + 3"
    "100 * (a div 100) \<le> a" "a \<le> 100 * (a div 100) + 99"
    "400 * (a div 400) \<le> a" "a \<le> 400 * (a div 400) + 399"
  by simp_all

lemma DayFromYear_upper: "400 * DayFromYear (1970 + n) \<le> 146097 * n + 589"
proof -
  define q4 where "q4 = (1970 + n - 1969) div 4"
  define q100 where "q100 = (1970 + n - 1901) div 100"
  define q400 where "q400 = (1970 + n - 1601) div 400"
  have "4 * q4 \<le> 1970 + n - 1969" unfolding q4_def by (rule div_bounds)
  moreover have "1970 + n - 1901 \<le> 100 * q100 + 99" unfolding q100_def by (rule div_bounds)
  moreover have "400 * q400 \<le> 1970 + n - 1601" unfolding q400_def by (rule div_bounds)
  moreover have "DayFromYear (1970 + n) = 365 * n + q4 - q100 + q400"
    by (simp add: DayFromYear_def q4_def q100_def q400_def)
  ultimately show ?thesis by linarith
qed

lemma DayFromYear_lower: "146097 * n - 506 \<le> 400 * DayFromYear (1970 + n)"
proof -
  define q4 where "q4 = (1970 + n - 1969) div 4"
  define q100 where "q100 = (1970 + n - 1901) div 100"
  define q400 where "q400 = (1970 + n - 1601) div 400"
  have "1970 + n - 1969 \<le> 4 * q4 + 3" unfolding q4_def by (rule div_bounds)
  moreover have "100 * q100 \<le> 1970 + n - 1901" unfolding q100_def by (rule div_bounds)
  moreover have "1970 + n - 1601 \<le> 400 * q400 + 399" unfolding q400_def by (rule div_bounds)
  moreover have "DayFromYear (1970 + n) = 365 * n + q4 - q100 + q400"
    by (simp add: DayFromYear_def q4_def q100_def q400_def)
  ultimately show ?thesis by linarith
qed

lemma year_from_day_bounds:
  "DayFromYear (year_from_day d) \<le> d \<and> d < DayFromYear (year_from_day d + 1)"
proof -
  define n where "n = (400 * d) div 146097"
  have "146097 * ((400 * d) div 146097) \<le> 400 * d" by simp
  moreover have "400 * d \<le> 146097 * ((400 * d) div 146097) + 146096" by simp
  ultimately have n: "146097 * n \<le> 400 * d" "400 * d \<le> 146097 * n + 146096"
    unfolding n_def by blast+
  define lo_day where "lo_day = DayFromYear (1970 + (n - 1))"
  define hi_day where "hi_day = DayFromYear (1970 + (n + 2))"
  have "400 * lo_day \<le> 146097 * (n - 1) + 589"
    unfolding lo_day_def by (rule DayFromYear_upper)
  then have "400 * lo_day \<le> 146097 * n - 145508" by (simp add: algebra_simps)
  with n have "lo_day \<le> d" by linarith
  then have lo: "DayFromYear (1970 + (n - 1)) \<le> d" by (simp add: lo_day_def)
  have "146097 * (n + 2) - 506 \<le> 400 * hi_day"
    unfolding hi_day_def by (rule DayFromYear_lower)
  then have "146097 * n + 291688 \<le> 400 * hi_day" by (simp add: algebra_simps)
  with n have "d < hi_day" by linarith
  then have hi: "d < DayFromYear (1970 + (n + 2))" by (simp add: hi_day_def)
  have e: "1970 + n - 1 = 1970 + (n - 1)" "1970 + n + 1 + 1 = 1970 + (n + 2)" by simp_all
  show ?thesis
    unfolding year_from_day_def n_def [symmetric] Let_def
    using lo hi by (auto simp: e)
qed

lemma div_step:
  fixes a k :: int
  assumes "0 < k"
  shows "(a + 1) div k = a div k + (if k dvd a + 1 then 1 else 0)"
proof (cases "k dvd a + 1")
  case True
  then obtain q where q: "a + 1 = k * q" ..
  then have "a = (k - 1) + k * (q - 1)" by (simp add: algebra_simps)
  then have "a div k = ((k - 1) + k * (q - 1)) div k" by simp
  also have "\<dots> = (q - 1) + (k - 1) div k"
    using assms by (subst div_mult_self2) simp_all
  also have "(k - 1) div k = 0" using assms by (simp add: div_pos_pos_trivial)
  finally have "a div k = q - 1" by simp
  moreover from q assms have "(a + 1) div k = q" by simp
  ultimately show ?thesis using True by simp
next
  case False
  define r where "r = a mod k"
  define q where "q = a div k"
  have a: "a = k * q + r" by (simp add: q_def r_def)
  from assms have r: "0 \<le> r" "r < k" by (simp_all add: r_def)
  have "r + 1 \<noteq> k"
  proof
    assume "r + 1 = k"
    with a have "a + 1 = k * (q + 1)" by (simp add: algebra_simps)
    with False show False by simp
  qed
  with r have "r + 1 < k" by simp
  moreover from a have "a + 1 = (r + 1) + k * q" by simp
  then have "(a + 1) div k = ((r + 1) + k * q) div k" by (rule arg_cong)
  moreover have "((r + 1) + k * q) div k = q + (r + 1) div k"
    using assms by (subst div_mult_self2) simp_all
  ultimately have "(a + 1) div k = q"
    using r by (simp add: div_pos_pos_trivial)
  with False show ?thesis by (simp add: q_def)
qed

lemma dvd_shift:
  fixes y :: int
  shows "4 dvd y - 1969 + 1 \<longleftrightarrow> 4 dvd y"
    and "100 dvd y - 1901 + 1 \<longleftrightarrow> 100 dvd y"
    and "400 dvd y - 1601 + 1 \<longleftrightarrow> 400 dvd y"
proof -
  have "y - 1969 + 1 = y - 4 * 492" "y - 1901 + 1 = y - 100 * 19" "y - 1601 + 1 = y - 400 * 4"
    by simp_all
  then show "4 dvd y - 1969 + 1 \<longleftrightarrow> 4 dvd y"
    and "100 dvd y - 1901 + 1 \<longleftrightarrow> 100 dvd y"
    and "400 dvd y - 1601 + 1 \<longleftrightarrow> 400 dvd y"
    by (simp_all only: dvd_diff_left_iff dvd_triv_left)
qed

lemma DaysInYear_dvd:
  "DaysInYear y = (if \<not> 4 dvd y then 365 else if \<not> 100 dvd y then 366
                   else if \<not> 400 dvd y then 365 else 366)"
  by (simp add: DaysInYear_def mod_eq_0_iff_dvd)

lemma DayFromYear_Suc: "DayFromYear (y + 1) = DayFromYear y + DaysInYear y"
proof -
  have e: "y + 1 - 1969 = y - 1969 + 1" "y + 1 - 1901 = y - 1901 + 1"
    "y + 1 - 1601 = y - 1601 + 1" by simp_all
  have d100: "100 dvd y \<Longrightarrow> 4 dvd y" by (rule dvd_trans [of 4 100]) simp_all
  have d400: "400 dvd y \<Longrightarrow> 100 dvd y" by (rule dvd_trans [of 100 400]) simp_all
  have p: "(0::int) < 4" "(0::int) < 100" "(0::int) < 400" by simp_all
  note s4 = div_step [OF p(1), of "y - 1969", unfolded dvd_shift]
  note s100 = div_step [OF p(2), of "y - 1901", unfolded dvd_shift]
  note s400 = div_step [OF p(3), of "y - 1601", unfolded dvd_shift]
  show ?thesis
    unfolding DayFromYear_def DaysInYear_dvd e s4 s100 s400
    using d100 d400 by auto
qed

lemma DaysInYear_ge: "365 \<le> DaysInYear y" "DaysInYear y \<le> 366"
  by (simp_all add: DaysInYear_def)

lemma DayFromYear_add_nat: "DayFromYear y \<le> DayFromYear (y + int k)"
proof (induction k)
  case 0
  then show ?case by simp
next
  case (Suc k)
  have "DayFromYear (y + int k + 1) = DayFromYear (y + int k) + DaysInYear (y + int k)"
    by (rule DayFromYear_Suc)
  with Suc DaysInYear_ge(1) [of "y + int k"] show ?case by (simp add: algebra_simps)
qed

lemma DayFromYear_mono: "a \<le> b \<Longrightarrow> DayFromYear a \<le> DayFromYear b"
  using DayFromYear_add_nat [of a "nat (b - a)"] by simp

lemma year_from_day_unique:
  assumes "DayFromYear y \<le> d" "d < DayFromYear (y + 1)"
  shows "year_from_day d = y"
proof (rule ccontr)
  assume ne: "year_from_day d \<noteq> y"
  have b: "DayFromYear (year_from_day d) \<le> d" "d < DayFromYear (year_from_day d + 1)"
    using year_from_day_bounds by blast+
  show False
  proof (cases "year_from_day d < y")
    case True
    then have "DayFromYear (year_from_day d + 1) \<le> DayFromYear y"
      by (intro DayFromYear_mono) simp
    with b assms show False by simp
  next
    case False
    with ne have "DayFromYear (y + 1) \<le> DayFromYear (year_from_day d)"
      by (intro DayFromYear_mono) simp
    with b assms show False by simp
  qed
qed

lemma MonthFromTime_range: "0 \<le> MonthFromTime t" "MonthFromTime t \<le> 11"
  by (simp_all add: MonthFromTime_def Let_def)

lemma MakeDay_fields:
  "MakeDay (YearFromTime t) (MonthFromTime t) (DateFromTime t + n) = Day t + n"
proof -
  have "MonthFromTime t div 12 = 0" "MonthFromTime t mod 12 = MonthFromTime t"
    using MonthFromTime_range [of t] by (simp_all add: div_pos_pos_trivial)
  then show ?thesis
    by (simp add: MakeDay_def DateFromTime_def InLeapYear_def DayWithinYear_def)
qed

lemma mod_split:
  fixes t b c :: int
  assumes "0 \<le> c"
  shows "b * (t div b mod c) + t mod b = t mod (b * c)"
  using zmod_zmult2_eq [OF assms, of t b] by simp

lemma time_within_day:
  "MakeTime (HourFromTime t) (MinFromTime t) (SecFromTime t) (msFromTime t) = TimeWithinDay t"
proof -
  have n: "(1000::int) * 60 = 60000" "(60000::int) * 60 = 3600000" "(3600000::int) * 24 = 86400000"
    by simp_all
  have a: "1000 * (t div 1000 mod 60) + t mod 1000 = t mod 60000"
    using mod_split [of 60 1000 t] by (simp only: n)
  have b: "60000 * (t div 60000 mod 60) + t mod 60000 = t mod 3600000"
    using mod_split [of 60 60000 t] by (simp only: n)
  have c: "3600000 * (t div 3600000 mod 24) + t mod 3600000 = t mod 86400000"
    using mod_split [of 24 3600000 t] by (simp only: n)
  have "t div 3600000 mod 24 * 3600000 + t div 60000 mod 60 * 60000 + t div 1000 mod 60 * 1000
          + t mod 1000
        = 3600000 * (t div 3600000 mod 24) + (60000 * (t div 60000 mod 60)
          + (1000 * (t div 1000 mod 60) + t mod 1000))"
    by (simp only: mult.commute add.assoc)
  also have "\<dots> = t mod 86400000" by (simp only: a b c)
  finally show ?thesis
    unfolding MakeTime_def HourFromTime_def MinFromTime_def SecFromTime_def msFromTime_def
      TimeWithinDay_def msPerDay_def msPerHour_def msPerMinute_def msPerSecond_def .
qed

lemma MakeTime_fields_plus:
  "MakeTime (HourFromTime t + n) (MinFromTime t) (SecFromTime t) (msFromTime t)
     = TimeWithinDay t + n * msPerHour"
  using time_within_day [of t] by (simp add: MakeTime_def algebra_simps)

lemma MakeDate_Day: "MakeDate (Day t + n) (TimeWithinDay t) = t + n * msPerDay"
  by (simp add: MakeDate_def Day_def TimeWithinDay_def algebra_simps)

lemma in_leap_year_leap: "in_leap_year y = (if leap_year y then 1 else 0)"
proof -
  have "y mod 100 = 0 \<Longrightarrow> y mod 4 = 0"
    by (simp add: mod_eq_0_iff_dvd) (rule dvd_trans [of 4 100], simp_all)
  moreover have "y mod 400 = 0 \<Longrightarrow> y mod 100 = 0"
    by (simp add: mod_eq_0_iff_dvd) (rule dvd_trans [of 100 400], simp_all)
  ultimately show ?thesis
    by (auto simp: in_leap_year_def leap_year_def DaysInYear_def)
qed

lemma DaysInYear_leap: "DaysInYear y = 365 + in_leap_year y"
  by (simp add: in_leap_year_def DaysInYear_def)

lemma day_in_year_range:
  assumes "valid_ymd y m d"
  shows "0 \<le> days_before_month (m - 1) (in_leap_year y) + d - 1"
    and "days_before_month (m - 1) (in_leap_year y) + d - 1 < DaysInYear y"
    and "days_before_month (m - 1) (in_leap_year y) \<le> days_before_month (m - 1) (in_leap_year y) + d - 1"
    and "m < 12 \<Longrightarrow> days_before_month (m - 1) (in_leap_year y) + d - 1 < days_before_month m (in_leap_year y)"
proof -
  from assms have m: "m = 1 \<or> m = 2 \<or> m = 3 \<or> m = 4 \<or> m = 5 \<or> m = 6 \<or> m = 7 \<or> m = 8
      \<or> m = 9 \<or> m = 10 \<or> m = 11 \<or> m = 12"
    unfolding valid_ymd_def by presburger
  from assms have d: "1 \<le> d" "d \<le> days_in_month y m" by (simp_all add: valid_ymd_def)
  show "0 \<le> days_before_month (m - 1) (in_leap_year y) + d - 1"
    using m d by (auto simp: days_before_month_def in_leap_year_leap)
  show "days_before_month (m - 1) (in_leap_year y) + d - 1 < DaysInYear y"
    using m d by (auto simp: days_before_month_def DaysInYear_leap days_in_month_def in_leap_year_leap split: if_splits)
  show "days_before_month (m - 1) (in_leap_year y) \<le> days_before_month (m - 1) (in_leap_year y) + d - 1"
    using d by simp
  show "days_before_month (m - 1) (in_leap_year y) + d - 1 < days_before_month m (in_leap_year y)"
    if "m < 12"
    using m d that by (auto simp: days_before_month_def days_in_month_def in_leap_year_leap split: if_splits)
qed


lemma month_cascade:
  assumes k: "k = 0 \<or> k = 1 \<or> k = 2 \<or> k = 3 \<or> k = 4 \<or> k = 5 \<or> k = 6 \<or> k = 7
      \<or> k = 8 \<or> k = 9 \<or> k = 10 \<or> k = 11"
    and l: "l = 0 \<or> l = 1"
    and lo: "days_before_month k l \<le> w"
    and hi: "k < 11 \<Longrightarrow> w < days_before_month (k + 1) l"
  shows "(if w < 31 then 0 else if w < 59 + l then 1 else if w < 90 + l then 2
         else if w < 120 + l then 3 else if w < 151 + l then 4
         else if w < 181 + l then 5 else if w < 212 + l then 6
         else if w < 243 + l then 7 else if w < 273 + l then 8
         else if w < 304 + l then 9 else if w < 334 + l then 10 else 11) = (k::int)"
  using k
proof (elim disjE)
  assume "k = 0" with lo hi l show ?thesis by (auto simp: days_before_month_def)
next
  assume "k = 1" with lo hi l show ?thesis by (auto simp: days_before_month_def)
next
  assume "k = 2" with lo hi l show ?thesis by (auto simp: days_before_month_def)
next
  assume "k = 3" with lo hi l show ?thesis by (auto simp: days_before_month_def)
next
  assume "k = 4" with lo hi l show ?thesis by (auto simp: days_before_month_def)
next
  assume "k = 5" with lo hi l show ?thesis by (auto simp: days_before_month_def)
next
  assume "k = 6" with lo hi l show ?thesis by (auto simp: days_before_month_def)
next
  assume "k = 7" with lo hi l show ?thesis by (auto simp: days_before_month_def)
next
  assume "k = 8" with lo hi l show ?thesis by (auto simp: days_before_month_def)
next
  assume "k = 9" with lo hi l show ?thesis by (auto simp: days_before_month_def)
next
  assume "k = 10" with lo hi l show ?thesis by (auto simp: days_before_month_def)
next
  assume "k = 11" with lo hi l show ?thesis by (auto simp: days_before_month_def)
qed

lemma civil_fields:
  assumes v: "valid_ymd y m d"
  shows "YearFromTime (MakeDate (MakeDay y (m - 1) d) 0) = y"
    and "MonthFromTime (MakeDate (MakeDay y (m - 1) d) 0) = m - 1"
    and "DateFromTime (MakeDate (MakeDay y (m - 1) d) 0) = d"
    and "TimeWithinDay (MakeDate (MakeDay y (m - 1) d) 0) = 0"
proof -
  define w where "w = days_before_month (m - 1) (in_leap_year y) + d - 1"
  define t where "t = MakeDate (MakeDay y (m - 1) d) 0"
  from v have m: "1 \<le> m" "m \<le> 12" by (simp_all add: valid_ymd_def)
  then have "(m - 1) div 12 = 0" "(m - 1) mod 12 = m - 1"
    by (simp_all add: div_pos_pos_trivial)
  then have md: "MakeDay y (m - 1) d = DayFromYear y + w"
    by (simp add: MakeDay_def w_def)
  have day: "Day t = DayFromYear y + w"
    by (simp add: t_def md MakeDate_def Day_def msPerDay_def)
  show twd: "TimeWithinDay (MakeDate (MakeDay y (m - 1) d) 0) = 0"
    by (simp add: md MakeDate_def TimeWithinDay_def msPerDay_def)
  have w: "0 \<le> w" "w < DaysInYear y"
    using day_in_year_range(1,2) [OF v] by (simp_all add: w_def)
  have "year_from_day (DayFromYear y + w) = y"
    using w by (intro year_from_day_unique) (simp_all add: DayFromYear_Suc)
  then have yr: "YearFromTime t = y" by (simp add: YearFromTime_def day)
  then show "YearFromTime (MakeDate (MakeDay y (m - 1) d) 0) = y" by (simp add: t_def)
  have dwy: "DayWithinYear t = w" by (simp add: DayWithinYear_def day yr)
  have leap: "InLeapYear t = in_leap_year y" by (simp add: InLeapYear_def yr)
  have k: "m - 1 = 0 \<or> m - 1 = 1 \<or> m - 1 = 2 \<or> m - 1 = 3 \<or> m - 1 = 4 \<or> m - 1 = 5
      \<or> m - 1 = 6 \<or> m - 1 = 7 \<or> m - 1 = 8 \<or> m - 1 = 9 \<or> m - 1 = 10 \<or> m - 1 = 11"
    using m by presburger
  have l: "in_leap_year y = 0 \<or> in_leap_year y = 1" by (simp add: in_leap_year_def)
  have lo: "days_before_month (m - 1) (in_leap_year y) \<le> w"
    using day_in_year_range(3) [OF v] by (simp add: w_def)
  have hi: "w < days_before_month (m - 1 + 1) (in_leap_year y)" if "m - 1 < 11"
    using day_in_year_range(4) [OF v] that by (simp add: w_def)
  have mon: "MonthFromTime t = m - 1"
    unfolding MonthFromTime_def Let_def dwy leap
    by (rule month_cascade [OF k l lo hi])
  then show "MonthFromTime (MakeDate (MakeDay y (m - 1) d) 0) = m - 1" by (simp add: t_def)
  have "DateFromTime t = d" by (simp add: DateFromTime_def dwy leap mon w_def)
  then show "DateFromTime (MakeDate (MakeDay y (m - 1) d) 0) = d" by (simp add: t_def)
qed

section \<open>Properties of \<open>setup_tasks\<close>\<close>

lemma YearFromTime_bounds:
  "DayFromYear (YearFromTime t) \<le> Day t" "Day t < DayFromYear (YearFromTime t + 1)"
  using year_from_day_bounds [of "Day t"] by (simp_all add: YearFromTime_def)

lemma Day_mono: "t \<le> t' \<Longrightarrow> Day t \<le> Day t'"
  by (simp add: Day_def msPerDay_def zdiv_mono1)

lemma YearFromTime_mono:
  assumes "t \<le> t'"
  shows "YearFromTime t \<le> YearFromTime t'"
proof (rule ccontr)
  assume "\<not> YearFromTime t \<le> YearFromTime t'"
  then have "DayFromYear (YearFromTime t' + 1) \<le> DayFromYear (YearFromTime t)"
    by (intro DayFromYear_mono) simp
  with YearFromTime_bounds(1) [of t] YearFromTime_bounds(2) [of t'] Day_mono [OF assms]
  show False by simp
qed

lemma DayFromYear_100: "DayFromYear 100 = - 683003"
  by (simp add: DayFromYear_def)

lemma Day_lower: "msPerDay * Day t \<le> t"
  by (simp add: Day_def msPerDay_def)

lemma year_100_lower:
  assumes "100 \<le> YearFromTime t"
  shows "- 59011459200000 \<le> t"
proof -
  have "DayFromYear 100 \<le> DayFromYear (YearFromTime t)"
    using assms by (rule DayFromYear_mono)
  with YearFromTime_bounds(1) [of t] have "- 683003 \<le> Day t"
    by (simp add: DayFromYear_100)
  then have "msPerDay * (- 683003) \<le> msPerDay * Day t"
    by (intro mult_left_mono) (simp_all add: msPerDay_def)
  with Day_lower [of t] show ?thesis by (simp add: msPerDay_def)
qed

lemma new_Date_fields:
  assumes "YearFromTime t < 0 \<or> 99 < YearFromTime t"
  shows "new_Date (Some (YearFromTime t)) (Some (MonthFromTime t))
           [Some (DateFromTime t + n), Some (HourFromTime t + k), Some (MinFromTime t),
            Some (SecFromTime t), Some (msFromTime t)]
         = TimeClip (t + n * msPerDay + k * msPerHour)"
proof -
  have "MakeDate (MakeDay (YearFromTime t) (MonthFromTime t) (DateFromTime t + n))
          (MakeTime (HourFromTime t + k) (MinFromTime t) (SecFromTime t) (msFromTime t))
        = MakeDate (Day t + n) (TimeWithinDay t) + k * msPerHour"
    by (simp only: MakeDay_fields MakeTime_fields_plus MakeDate_def add.assoc)
  also have "\<dots> = t + n * msPerDay + k * msPerHour"
    by (simp only: MakeDate_Day)
  finally show ?thesis
    using assms by (auto simp: new_Date_def component_def)
qed

lemma add_DAY:
  assumes "YearFromTime t < 0 \<or> 99 < YearFromTime t"
  shows "add (Some t) n DAY = TimeClip (t + n * msPerDay)"
  using new_Date_fields [OF assms, of n 0]
  by (simp add: add_def plus_if_def getFullYear_def getMonth_def getDate_def getHours_def
      getMinutes_def getSeconds_def getMilliseconds_def)

lemma add_HOUR:
  assumes "YearFromTime t < 0 \<or> 99 < YearFromTime t"
  shows "add (Some t) n HOUR = TimeClip (t + n * msPerHour)"
  using new_Date_fields [OF assms, of 0 n]
  by (simp add: add_def plus_if_def getFullYear_def getMonth_def getDate_def getHours_def
      getMinutes_def getSeconds_def getMilliseconds_def)

lemma add_None: "add None n sc = None"
  by (simp add: add_def plus_if_def getFullYear_def new_Date_def)

lemma field_ranges:
  "0 \<le> HourFromTime t" "0 \<le> MinFromTime t" "0 \<le> SecFromTime t" "0 \<le> msFromTime t"
  by (simp_all add: HourFromTime_def MinFromTime_def SecFromTime_def msFromTime_def
      msPerSecond_def)

lemma full_day_iff:
  "list_all (\<lambda>d. d = Some 0) (drop 3 (get_date_values (Some t))) = (TimeWithinDay t = 0)"
proof -
  have "(HourFromTime t = 0 \<and> MinFromTime t = 0 \<and> SecFromTime t = 0 \<and> msFromTime t = 0)
          = (TimeWithinDay t = 0)"
  proof
    assume "HourFromTime t = 0 \<and> MinFromTime t = 0 \<and> SecFromTime t = 0 \<and> msFromTime t = 0"
    with time_within_day [of t] show "TimeWithinDay t = 0" by (simp add: MakeTime_def)
  next
    assume z: "TimeWithinDay t = 0"
    have pos: "0 \<le> HourFromTime t * msPerHour" "0 \<le> MinFromTime t * msPerMinute"
      "0 \<le> SecFromTime t * msPerSecond"
      using field_ranges [of t]
      by (simp_all add: msPerHour_def msPerMinute_def msPerSecond_def)
    from z time_within_day [of t]
    have "HourFromTime t * msPerHour + MinFromTime t * msPerMinute
            + SecFromTime t * msPerSecond + msFromTime t = 0"
      by (simp add: MakeTime_def)
    with pos field_ranges(4) [of t]
    have "HourFromTime t * msPerHour = 0" "MinFromTime t * msPerMinute = 0"
      "SecFromTime t * msPerSecond = 0" "msFromTime t = 0" by linarith+
    then show "HourFromTime t = 0 \<and> MinFromTime t = 0 \<and> SecFromTime t = 0 \<and> msFromTime t = 0"
      by (simp add: msPerHour_def msPerMinute_def msPerSecond_def)
  qed
  then show ?thesis
    by (simp add: get_date_values_def getHours_def getMinutes_def getSeconds_def
        getMilliseconds_def)
qed

lemma full_day_None:
  "\<not> list_all (\<lambda>d. d = Some 0) (drop 3 (get_date_values None))"
  by (simp add: get_date_values_def getHours_def)

lemma TimeClip_in_range:
  "- 8640000000000000 \<le> t \<Longrightarrow> t \<le> 8640000000000000 \<Longrightarrow> TimeClip t = Some t"
  by (simp add: TimeClip_def)

lemma parse_string_empty: "parse_string env [] = None"
  by (simp add: parse_string_def parseInt_def new_Date_def)

lemma falsy_parse: "falsy r \<Longrightarrow> parse env r = None \<or> parse env r = Some None"
  by (cases r) (simp_all add: falsy_def parse_def parse_string_empty)

lemma truthy_parse: "\<not> falsy r \<Longrightarrow> \<exists>d. parse env r = Some d"
  by (cases r) (simp_all add: falsy_def parse_def)

lemma diff_falsy_right: "falsy r \<Longrightarrow> diff a (parse env r) sc = None"
  using falsy_parse [of r env] by (auto simp: diff_def split: option.splits)

lemma diff_falsy_left: "falsy r \<Longrightarrow> diff (parse env r) b sc = None"
  using falsy_parse [of r env] by (auto simp: diff_def split: option.splits)

lemma span_over_truthy: "span_over env t \<Longrightarrow> \<not> falsy (t_start t) \<and> \<not> falsy (t_end t)"
  using diff_falsy_right [of "t_start t" "parse env (t_end t)" env YEAR]
    diff_falsy_left [of "t_end t" env "parse env (t_start t)" YEAR]
  by (auto simp: span_over_def)

lemma finish_fields [simp]:
  "t__start (finish env i t) = t__start t"
  "t__end (finish env i t) = t__end t"
  "t_start (finish env i t) = t_start t"
  "t_end (finish env i t) = t_end t"
  "t_visible (finish env i t) = t_visible t"
  "t__index (finish env i t) = t__index t"
  by (simp_all add: finish_def step_uid_def step_dependencies_def step_invalid_def
      split: deps.splits)

lemma normalize_neither:
  assumes "falsy (t_start t)" "falsy (t_end t)"
  shows "normalize_task env i t =
           Inr (finish env i (t\<lparr>t__index := Some i, t__start := Some (today env),
                  t__end := Some (end_of_day (add (today env) 2 DAY))\<rparr>))"
  using assms diff_falsy_right [OF assms(1), of "parse env (t_end t)" env YEAR]
  by (auto simp: normalize_task_def step_parse_def step_span_def step_index_def
      step_no_dates_def step_no_start_def step_no_end_def step_full_day_def bind_err_def
      finish_def end_of_day_def
      intro!: arg_cong [where f = "\<lambda>r. step_uid env i (step_dependencies (step_invalid r))"]
        task.equality)

lemma normalize_end_only:
  assumes "falsy (t_start t)" "\<not> falsy (t_end t)" "parse env (t_end t) = Some e"
  shows "normalize_task env i t =
           Inr (finish env i (t\<lparr>t__index := Some i, t__start := Some (add e (- 2) DAY),
                  t__end := Some (end_of_day e)\<rparr>))"
  using assms diff_falsy_right [OF assms(1), of "parse env (t_end t)" env YEAR]
  by (auto simp: normalize_task_def step_parse_def step_span_def step_index_def
      step_no_dates_def step_no_start_def step_no_end_def step_full_day_def bind_err_def
      finish_def end_of_day_def
      intro!: arg_cong [where f = "\<lambda>r. step_uid env i (step_dependencies (step_invalid r))"]
        task.equality)

lemma normalize_start_only:
  assumes "\<not> falsy (t_start t)" "falsy (t_end t)" "parse env (t_start t) = Some b"
  shows "normalize_task env i t =
           Inr (finish env i (t\<lparr>t__index := Some i, t__start := Some b,
                  t__end := Some (end_of_day (add b 2 DAY))\<rparr>))"
  using assms diff_falsy_left [OF assms(2), of env "parse env (t_start t)" YEAR]
  by (auto simp: normalize_task_def step_parse_def step_span_def step_index_def
      step_no_dates_def step_no_start_def step_no_end_def step_full_day_def bind_err_def
      finish_def end_of_day_def
      intro!: arg_cong [where f = "\<lambda>r. step_uid env i (step_dependencies (step_invalid r))"]
        task.equality)

lemma normalize_both:
  assumes "\<not> falsy (t_start t)" "\<not> falsy (t_end t)"
    "parse env (t_start t) = Some b" "parse env (t_end t) = Some e"
  shows "normalize_task env i t =
           (if span_over env t
            then Inr (finish env i (t\<lparr>t_end := Absent, t__index := Some i, t__start := Some b,
                   t__end := Some (end_of_day (add b 2 DAY))\<rparr>))
            else Inr (finish env i (t\<lparr>t__index := Some i, t__start := Some b,
                   t__end := Some (end_of_day e)\<rparr>)))"
  using assms
  by (auto simp: normalize_task_def step_parse_def step_span_def step_index_def
      step_no_dates_def step_no_start_def step_no_end_def step_full_day_def bind_err_def
      finish_def end_of_day_def span_over_def falsy_def
      intro!: arg_cong [where f = "\<lambda>r. step_uid env i (step_dependencies (step_invalid r))"]
        task.equality)


lemma finish_dependencies: "\<exists>ds. t_dependencies (finish env i t) = DepsList ds"
  by (simp add: finish_def step_uid_def step_dependencies_def step_invalid_def
      split: deps.splits)

lemma finish_id:
  "t_id (finish env i t) =
     (if t_id t = None \<or> t_id t = Some [] then Some (t_name t @ ''_'' @ random_suffix env i)
      else t_id t)"
  by (auto simp: finish_def step_uid_def step_dependencies_def step_invalid_def generate_id_def
      split: deps.splits option.splits)

lemma normalize_task_shape:
  obtains e' a b where
    "normalize_task env i t =
       Inr (finish env i (t\<lparr>t_end := e', t__index := Some i, t__start := Some a,
              t__end := Some b\<rparr>))"
    "e' = t_end t \<or> e' = Absent"
proof (cases "falsy (t_start t)"; cases "falsy (t_end t)")
  assume f: "falsy (t_start t)" "falsy (t_end t)"
  have "t\<lparr>t_end := t_end t\<rparr> = t" by simp
  with normalize_neither [OF f, of env i] that [where e' = "t_end t"] show ?thesis by simp
next
  assume f: "falsy (t_start t)" "\<not> falsy (t_end t)"
  from truthy_parse [OF f(2)] obtain e where "parse env (t_end t) = Some e" ..
  from normalize_end_only [OF f this, of i] that [where e' = "t_end t"] show ?thesis by simp
next
  assume f: "\<not> falsy (t_start t)" "falsy (t_end t)"
  from truthy_parse [OF f(1)] obtain b where "parse env (t_start t) = Some b" ..
  from normalize_start_only [OF f this, of i] that [where e' = "t_end t"] show ?thesis by simp
next
  assume f: "\<not> falsy (t_start t)" "\<not> falsy (t_end t)"
  from truthy_parse [OF f(1)] obtain b where b: "parse env (t_start t) = Some b" ..
  from truthy_parse [OF f(2)] obtain e where e: "parse env (t_end t) = Some e" ..
  show ?thesis
  proof (cases "span_over env t")
    case True
    with normalize_both [OF f b e, of i] that [where e' = Absent] show ?thesis by simp
  next
    case False
    with normalize_both [OF f b e, of i] that [where e' = "t_end t"] show ?thesis by simp
  qed
qed

lemma normalize_task_total: "\<exists>t'. normalize_task env i t = Inr t'"
  by (rule normalize_task_shape [of env i t]) blast

lemma normalize_task_frame:
  assumes "normalize_task env i t = Inr t'"
  shows "t_visible t' = t_visible t"
    and "\<exists>ds. t_dependencies t' = DepsList ds"
    and "t_start t' = t_start t"
    and "t_end t' = t_end t \<or> t_end t' = Absent"
    and "t_id t' \<noteq> None \<and> t_id t' \<noteq> Some []"
    and "\<exists>a b. t__start t' = Some a \<and> t__end t' = Some b"
proof -
  obtain e' a b where n: "normalize_task env i t =
       Inr (finish env i (t\<lparr>t_end := e', t__index := Some i, t__start := Some a,
              t__end := Some b\<rparr>))" and e': "e' = t_end t \<or> e' = Absent"
    by (rule normalize_task_shape)
  from n assms have t': "t' = finish env i (t\<lparr>t_end := e', t__index := Some i,
      t__start := Some a, t__end := Some b\<rparr>)" by simp
  show "t_visible t' = t_visible t" by (simp add: t')
  show "\<exists>ds. t_dependencies t' = DepsList ds" unfolding t' by (rule finish_dependencies)
  show "t_start t' = t_start t" by (simp add: t')
  show "t_end t' = t_end t \<or> t_end t' = Absent" using e' by (auto simp: t')
  show "t_id t' \<noteq> None \<and> t_id t' \<noteq> Some []" by (simp add: t' finish_id)
  show "\<exists>a b. t__start t' = Some a \<and> t__end t' = Some b" by (simp add: t')
qed

lemma visible_index_simps [simp]:
  "visible_index tasks 0 = 0"
  "visible_index (t # tasks) (Suc j) =
     (if is_visible t then Suc (visible_index tasks j) else visible_index tasks j)"
  by (simp_all add: visible_index_def)

lemma normalize_all_nth:
  "\<exists>ts. normalize_all env i tasks = Inr ts \<and> length ts = length tasks \<and>
     (\<forall>k<length tasks.
        (is_visible (tasks ! k) \<longrightarrow>
           normalize_task env (i + visible_index tasks k) (tasks ! k) = Inr (ts ! k))
        \<and> (\<not> is_visible (tasks ! k) \<longrightarrow> ts ! k = tasks ! k))"
proof (induction tasks arbitrary: i)
  case Nil
  then show ?case by simp
next
  case (Cons t tasks)
  show ?case
  proof (cases "is_visible t")
    case True
    obtain t' where t': "normalize_task env i t = Inr t'"
      using normalize_task_total by blast
    from Cons [of "Suc i"] obtain ts where ts: "normalize_all env (Suc i) tasks = Inr ts"
      "length ts = length tasks"
      "\<forall>k<length tasks.
        (is_visible (tasks ! k) \<longrightarrow>
           normalize_task env (Suc i + visible_index tasks k) (tasks ! k) = Inr (ts ! k))
        \<and> (\<not> is_visible (tasks ! k) \<longrightarrow> ts ! k = tasks ! k)" by blast
    have "normalize_all env i (t # tasks) = Inr (t' # ts)"
      using True t' ts(1) by (simp add: bind_err_def)
    moreover have "(is_visible ((t # tasks) ! k) \<longrightarrow>
           normalize_task env (i + visible_index (t # tasks) k) ((t # tasks) ! k)
               = Inr ((t' # ts) ! k))
        \<and> (\<not> is_visible ((t # tasks) ! k) \<longrightarrow> (t' # ts) ! k = (t # tasks) ! k)" if "k < length (t # tasks)" for k
    proof (cases k)
      case 0
      with True t' show ?thesis by simp
    next
      case (Suc j)
      with that have "j < length tasks" by simp
      with ts(3) have "(is_visible (tasks ! j) \<longrightarrow>
           normalize_task env (Suc i + visible_index tasks j) (tasks ! j) = Inr (ts ! j))
        \<and> (\<not> is_visible (tasks ! j) \<longrightarrow> ts ! j = tasks ! j)" by blast
      with Suc True show ?thesis by simp
    qed
    ultimately show ?thesis using ts(2) by auto
  next
    case False
    from Cons [of i] obtain ts where ts: "normalize_all env i tasks = Inr ts"
      "length ts = length tasks"
      "\<forall>k<length tasks.
        (is_visible (tasks ! k) \<longrightarrow>
           normalize_task env (i + visible_index tasks k) (tasks ! k) = Inr (ts ! k))
        \<and> (\<not> is_visible (tasks ! k) \<longrightarrow> ts ! k = tasks ! k)" by blast
    have "normalize_all env i (t # tasks) = Inr (t # ts)"
      using False ts(1) by (simp add: bind_err_def)
    moreover have "(is_visible ((t # tasks) ! k) \<longrightarrow>
           normalize_task env (i + visible_index (t # tasks) k) ((t # tasks) ! k)
               = Inr ((t # ts) ! k))
        \<and> (\<not> is_visible ((t # tasks) ! k) \<longrightarrow> (t # ts) ! k = (t # tasks) ! k)" if "k < length (t # tasks)" for k
    proof (cases k)
      case 0
      with False show ?thesis by simp
    next
      case (Suc j)
      with that have "j < length tasks" by simp
      with ts(3) have "(is_visible (tasks ! j) \<longrightarrow>
           normalize_task env (i + visible_index tasks j) (tasks ! j) = Inr (ts ! j))
        \<and> (\<not> is_visible (tasks ! j) \<longrightarrow> ts ! j = tasks ! j)" by blast
      with Suc False show ?thesis by simp
    qed
    ultimately show ?thesis using ts(2) by auto
  qed
qed

lemma setup_dependencies_loop_ok:
  "\<forall>t\<in>set ts. t_dependencies t \<noteq> DepsAbsent \<Longrightarrow> \<exists>m'. setup_dependencies_loop ts m = Inr m'"
proof (induction ts arbitrary: m)
  case Nil
  then show ?case by simp
next
  case (Cons t ts)
  then show ?case by (cases "t_dependencies t") simp_all
qed

lemma setup_ancestors_loop_ok:
  "\<forall>t\<in>set ts. t_dependencies t \<noteq> DepsAbsent \<Longrightarrow> \<exists>m'. setup_ancestors_loop ts m = Inr m'"
proof (induction ts arbitrary: m)
  case Nil
  then show ?case by simp
next
  case (Cons t ts)
  then show ?case by (cases "t_dependencies t") simp_all
qed

lemma setup_tasks_nth:
  assumes "hidden_iterable tasks"
  shows "\<exists>g. setup_tasks env tasks = Inr g \<and> length (g_tasks g) = length tasks \<and>
     (\<forall>k<length tasks.
        (is_visible (tasks ! k) \<longrightarrow>
           normalize_task env (visible_index tasks k) (tasks ! k) = Inr (g_tasks g ! k))
        \<and> (\<not> is_visible (tasks ! k) \<longrightarrow> g_tasks g ! k = tasks ! k))"
proof -
  from normalize_all_nth [of env 0 tasks] obtain ts where
    ts: "normalize_all env 0 tasks = Inr ts" "length ts = length tasks"
    and nth: "\<forall>k<length tasks.
        (is_visible (tasks ! k) \<longrightarrow>
           normalize_task env (0 + visible_index tasks k) (tasks ! k) = Inr (ts ! k))
        \<and> (\<not> is_visible (tasks ! k) \<longrightarrow> ts ! k = tasks ! k)" by blast
  have "t_dependencies u \<noteq> DepsAbsent" if "u \<in> set ts" for u
  proof -
    from that obtain k where k: "k < length ts" "u = ts ! k" by (auto simp: in_set_conv_nth)
    show ?thesis
    proof (cases "is_visible (tasks ! k)")
      case True
      with nth k ts(2) have "normalize_task env (0 + visible_index tasks k) (tasks ! k) = Inr u"
        by simp
      from normalize_task_frame(2) [OF this] show ?thesis by auto
    next
      case False
      with nth k ts(2) have "u = tasks ! k" by simp
      moreover from assms k ts(2) False have "t_dependencies (tasks ! k) \<noteq> DepsAbsent"
        by (auto simp: hidden_iterable_def list_all_length)
      ultimately show ?thesis by simp
    qed
  qed
  then have ok: "\<forall>t\<in>set ts. t_dependencies t \<noteq> DepsAbsent" by blast
  from setup_dependencies_loop_ok [OF ok] obtain dm where "setup_dependencies ts = Inr dm"
    unfolding setup_dependencies_def by blast
  moreover from setup_ancestors_loop_ok [OF ok] obtain am where "setup_ancestors ts = Inr am"
    unfolding setup_ancestors_def by blast
  ultimately have "setup_tasks env tasks =
      Inr \<lparr>g_tasks = ts, g_visible_tasks = filter is_visible ts,
           g_dependency_map = dm, g_ancestor_map = am\<rparr>"
    using ts(1) by (simp add: setup_tasks_def bind_err_def)
  with ts(2) nth show ?thesis by simp
qed

lemma TimeWithinDay_shift: "TimeWithinDay (t + n * msPerDay) = TimeWithinDay t"
  by (simp add: TimeWithinDay_def)

lemma day_is_24_hours: "24 * msPerHour = msPerDay"
  by (simp add: msPerHour_def msPerDay_def)

lemma end_of_day_Some:
  assumes "YearFromTime t < 0 \<or> 99 < YearFromTime t"
  shows "end_of_day (Some t) =
           (if TimeWithinDay t = 0 then TimeClip (t + msPerDay) else Some t)"
  using add_HOUR [OF assms, of 24]
  by (simp add: end_of_day_def full_day_iff day_is_24_hours)

lemma end_of_day_None: "end_of_day None = None"
  by (simp add: end_of_day_def full_day_None)

lemma plain_time_add_days:
  assumes "plain_time t" "- 2 \<le> n" "n \<le> 3"
  shows "add (Some t) n DAY = Some (t + n * msPerDay)"
proof -
  from assms(1) have y: "YearFromTime t < 0 \<or> 99 < YearFromTime t"
    and hi: "t + 3 * msPerDay \<le> 8640000000000000"
    and lo: "- 59011459200000 \<le> t"
    using year_100_lower [of t] by (simp_all add: plain_time_def)
  have "n * msPerDay \<le> 3 * msPerDay" "- 2 * msPerDay \<le> n * msPerDay"
    using assms(2,3) by (simp_all add: msPerDay_def)
  with hi lo have "TimeClip (t + n * msPerDay) = Some (t + n * msPerDay)"
    by (intro TimeClip_in_range) (simp_all add: msPerDay_def)
  with add_DAY [OF y, of n] show ?thesis by simp
qed

lemma plain_time_end_of_day:
  assumes "100 \<le> YearFromTime t" "t + msPerDay \<le> 8640000000000000"
  shows "end_of_day (Some t) =
           Some (t + (if TimeWithinDay t = 0 then msPerDay else 0))"
proof -
  from assms have y: "YearFromTime t < 0 \<or> 99 < YearFromTime t"
    and lo: "- 59011459200000 \<le> t"
    using year_100_lower [of t] by simp_all
  with assms(2) have "TimeClip (t + msPerDay) = Some (t + msPerDay)"
    by (intro TimeClip_in_range) (simp_all add: msPerDay_def)
  with end_of_day_Some [OF y] show ?thesis by simp
qed

lemma plain_time_two_days:
  assumes "plain_time t"
  shows "end_of_day (add (Some t) 2 DAY) =
           Some (t + 2 * msPerDay + (if TimeWithinDay t = 0 then msPerDay else 0))"
proof -
  have a: "add (Some t) 2 DAY = Some (t + 2 * msPerDay)"
    using plain_time_add_days [OF assms, of 2] by simp
  have "t \<le> t + 2 * msPerDay" by (simp add: msPerDay_def)
  from YearFromTime_mono [OF this] assms have "100 \<le> YearFromTime (t + 2 * msPerDay)"
    by (simp add: plain_time_def)
  moreover from assms have "t + 2 * msPerDay + msPerDay \<le> 8640000000000000"
    by (simp add: plain_time_def)
  ultimately show ?thesis
    unfolding a by (simp add: plain_time_end_of_day TimeWithinDay_shift)
qed

lemma Day_of_midnight: "Day (Day t * msPerDay) = Day t" "TimeWithinDay (Day t * msPerDay) = 0"
  by (simp_all add: Day_def TimeWithinDay_def msPerDay_def)

lemma today_plain:
  assumes "plain_time (now env)"
  shows "today env = Some (Day (now env) * msPerDay)"
    and "plain_time (Day (now env) * msPerDay)"
proof -
  let ?t = "now env"
  from assms have y: "100 \<le> YearFromTime ?t" and hi: "?t + 3 * msPerDay \<le> 8640000000000000"
    by (simp_all add: plain_time_def)
  have le: "Day ?t * msPerDay \<le> ?t" using Day_lower [of ?t] by (simp add: mult.commute)
  have yr: "YearFromTime (Day ?t * msPerDay) = YearFromTime ?t"
    by (simp add: YearFromTime_def Day_of_midnight)
  show p: "plain_time (Day ?t * msPerDay)"
    using y hi le by (simp add: plain_time_def yr)
  have "MakeDay (YearFromTime ?t) (MonthFromTime ?t) (DateFromTime ?t) = Day ?t"
    using MakeDay_fields [of ?t 0] by simp
  then have "today env = TimeClip (Day ?t * msPerDay)"
    using y by (simp add: today_def new_Date_def component_def getFullYear_def getMonth_def
        getDate_def MakeTime_def MakeDate_def)
  moreover have "TimeClip (Day ?t * msPerDay) = Some (Day ?t * msPerDay)"
    using year_100_lower [of "Day ?t * msPerDay"] p
    by (intro TimeClip_in_range) (simp_all add: plain_time_def msPerDay_def)
  ultimately show "today env = Some (Day ?t * msPerDay)" by simp
qed

text \<open>Two dates of January 2024, for the scenarios.\<close>

lemma plain_2024: "plain_time 1704844800000" "plain_time 1705017600000"
  by code_simp+

lemma parse_2024:
  "parse env0 (Str ''2024-01-10'') = Some (Some 1704844800000)"
  "parse env0 (Str ''2024-01-12'') = Some (Some 1705017600000)"
  by code_simp+

text \<open>
  C2, as the code has it. For a visible task with only a start date, a date \<open>s\<close> in
  the year 100 or later: \<^verbatim>\<open>_start\<close> is \<open>s\<close> and \<^verbatim>\<open>_end\<close> is \<open>s\<close> plus two days,
  plus one more day when that instant has no time of day (the full-day rule). For a
  visible task with only an end date \<open>e\<close>: \<^verbatim>\<open>_start\<close> is \<open>e\<close> minus two days, and
  \<^verbatim>\<open>_end\<close> is \<open>e\<close>, plus one day when \<open>e\<close> has no time of day. \<^verbatim>\<open>setup_tasks\<close>
  returns when the hidden tasks have dependencies that can be iterated.
\<close>

theorem setup_tasks_single_date:
  assumes "hidden_iterable tasks" and "k < length tasks" and "is_visible (tasks ! k)"
  shows "(\<not> falsy (t_start (tasks ! k)) \<and> falsy (t_end (tasks ! k))
            \<and> parse env (t_start (tasks ! k)) = Some (Some s) \<and> plain_time s
          \<longrightarrow> (\<exists>g. setup_tasks env tasks = Inr g
                \<and> t__start (g_tasks g ! k) = Some (Some s)
                \<and> t__end (g_tasks g ! k)
                    = Some (Some (s + 2 * msPerDay
                                  + (if TimeWithinDay s = 0 then msPerDay else 0)))))
       \<and> (falsy (t_start (tasks ! k)) \<and> \<not> falsy (t_end (tasks ! k))
            \<and> parse env (t_end (tasks ! k)) = Some (Some e) \<and> plain_time e
          \<longrightarrow> (\<exists>g. setup_tasks env tasks = Inr g
                \<and> t__start (g_tasks g ! k) = Some (Some (e - 2 * msPerDay))
                \<and> t__end (g_tasks g ! k)
                    = Some (Some (e + (if TimeWithinDay e = 0 then msPerDay else 0)))))"
proof -
  from setup_tasks_nth [OF assms(1), of env] assms(2,3) obtain g where
    g: "setup_tasks env tasks = Inr g"
    and n: "normalize_task env (visible_index tasks k) (tasks ! k) = Inr (g_tasks g ! k)"
    by blast
  have start_only: "t__start (g_tasks g ! k) = Some (Some s)
      \<and> t__end (g_tasks g ! k)
          = Some (Some (s + 2 * msPerDay + (if TimeWithinDay s = 0 then msPerDay else 0)))"
    if "\<not> falsy (t_start (tasks ! k))" "falsy (t_end (tasks ! k))"
      "parse env (t_start (tasks ! k)) = Some (Some s)" "plain_time s"
  proof -
    have "g_tasks g ! k =
        finish env (visible_index tasks k)
          ((tasks ! k)\<lparr>t__index := Some (visible_index tasks k), t__start := Some (Some s),
             t__end := Some (end_of_day (add (Some s) 2 DAY))\<rparr>)"
      using n normalize_start_only [OF that(1-3), of "visible_index tasks k"] by simp
    then show ?thesis
      by (simp add: plain_time_two_days [OF that(4)])
  qed
  have end_only: "t__start (g_tasks g ! k) = Some (Some (e - 2 * msPerDay))
      \<and> t__end (g_tasks g ! k)
          = Some (Some (e + (if TimeWithinDay e = 0 then msPerDay else 0)))"
    if "falsy (t_start (tasks ! k))" "\<not> falsy (t_end (tasks ! k))"
      "parse env (t_end (tasks ! k)) = Some (Some e)" "plain_time e"
  proof -
    have a: "add (Some e) (- 2) DAY = Some (e - 2 * msPerDay)"
      using plain_time_add_days [OF that(4), of "- 2"] by simp
    have b: "end_of_day (Some e) = Some (e + (if TimeWithinDay e = 0 then msPerDay else 0))"
      using that(4) by (intro plain_time_end_of_day) (simp_all add: plain_time_def msPerDay_def)
    have "g_tasks g ! k =
        finish env (visible_index tasks k)
          ((tasks ! k)\<lparr>t__index := Some (visible_index tasks k),
             t__start := Some (add (Some e) (- 2) DAY),
             t__end := Some (end_of_day (Some e))\<rparr>)"
      using n normalize_end_only [OF that(1-3), of "visible_index tasks k"] by simp
    then show ?thesis by (simp add: a b)
  qed
  from g start_only end_only show ?thesis by blast
qed

text \<open>A task given only \<^verbatim>\<open>start: '2024-01-10'\<close>: the theorem at that task.\<close>

theorem setup_tasks_single_date_witness:
  "hidden_iterable [raw_task ''a'' (Str ''2024-01-10'') Absent None]
   \<and> 0 < length [raw_task ''a'' (Str ''2024-01-10'') Absent None]
   \<and> is_visible ([raw_task ''a'' (Str ''2024-01-10'') Absent None] ! 0)
   \<and> \<not> falsy (t_start ([raw_task ''a'' (Str ''2024-01-10'') Absent None] ! 0))
   \<and> falsy (t_end ([raw_task ''a'' (Str ''2024-01-10'') Absent None] ! 0))
   \<and> parse env0 (t_start ([raw_task ''a'' (Str ''2024-01-10'') Absent None] ! 0))
       = Some (Some 1704844800000)
   \<and> plain_time 1704844800000
   \<and> (\<exists>g. setup_tasks env0 [raw_task ''a'' (Str ''2024-01-10'') Absent None] = Inr g
          \<and> t__start (g_tasks g ! 0) = Some (Some 1704844800000)
          \<and> t__end (g_tasks g ! 0) = Some (Some 1705104000000))"
proof -
  let ?ts = "[raw_task ''a'' (Str ''2024-01-10'') Absent None]"
  have h: "hidden_iterable ?ts" "0 < length ?ts" "is_visible (?ts ! 0)"
    by (simp_all add: hidden_iterable_def is_visible_def raw_task_def)
  have f: "\<not> falsy (t_start (?ts ! 0))" "falsy (t_end (?ts ! 0))"
    by (simp_all add: falsy_def raw_task_def)
  have p: "parse env0 (t_start (?ts ! 0)) = Some (Some 1704844800000)"
    using parse_2024(1) by (simp add: raw_task_def)
  have v: "(1704844800000 :: int) + 2 * msPerDay
             + (if TimeWithinDay 1704844800000 = 0 then msPerDay else 0) = 1705104000000"
    by (simp add: TimeWithinDay_def msPerDay_def)
  from setup_tasks_single_date [OF h, of env0 1704844800000 0] f p plain_2024(1)
  have "\<exists>g. setup_tasks env0 ?ts = Inr g
          \<and> t__start (g_tasks g ! 0) = Some (Some 1704844800000)
          \<and> t__end (g_tasks g ! 0) = Some (Some 1705104000000)"
    unfolding v by blast
  with h f p plain_2024(1) show ?thesis by blast
qed

text \<open>
  The same task: \<^verbatim>\<open>_end\<close> is three days after \<^verbatim>\<open>_start\<close>, not two, the start having
  no time of day.
\<close>

theorem setup_tasks_single_date_counterexample:
  "(case setup_tasks env0 [raw_task ''a'' (Str ''2024-01-10'') Absent None] of
      Inl e \<Rightarrow> False
    | Inr g \<Rightarrow> t__start (g_tasks g ! 0) = Some (Some 1704844800000)
             \<and> t__end (g_tasks g ! 0) = Some (Some 1705104000000))
   \<and> (1705104000000 :: int) = 1704844800000 + 3 * msPerDay
   \<and> (1705104000000 :: int) \<noteq> 1704844800000 + 2 * msPerDay"
  by code_simp

text \<open>
  C4, as the code has it. Every visible task whose given dates are dates in the year
  100 or later (today's date, when none is given) has both \<^verbatim>\<open>_start\<close> and \<^verbatim>\<open>_end\<close>
  after \<^verbatim>\<open>setup_tasks\<close>, and \<^verbatim>\<open>_end > _start\<close> holds provided that, when both dates
  are given and their span is not over the 10-year test, the given end (moved forward
  one day when it has no time of day) is later than the given start.
\<close>

theorem setup_tasks_end_after_start:
  assumes "hidden_iterable tasks" and "k < length tasks" and "is_visible (tasks ! k)"
    and S: "falsy (t_start (tasks ! k))
            \<or> (\<exists>s. parse env (t_start (tasks ! k)) = Some (Some s) \<and> plain_time s)"
    and E: "falsy (t_end (tasks ! k))
            \<or> (\<exists>e. parse env (t_end (tasks ! k)) = Some (Some e) \<and> plain_time e)"
    and N: "falsy (t_start (tasks ! k)) \<and> falsy (t_end (tasks ! k)) \<longrightarrow> plain_time (now env)"
    and order: "\<forall>s e. parse env (t_start (tasks ! k)) = Some (Some s)
                 \<and> parse env (t_end (tasks ! k)) = Some (Some e)
                 \<and> \<not> span_over env (tasks ! k)
               \<longrightarrow> s < e + (if TimeWithinDay e = 0 then msPerDay else 0)"
  shows "\<exists>g a b. setup_tasks env tasks = Inr g
           \<and> t__start (g_tasks g ! k) = Some (Some a)
           \<and> t__end (g_tasks g ! k) = Some (Some b) \<and> a < b"
proof -
  let ?t = "tasks ! k" and ?i = "visible_index tasks k"
  from setup_tasks_nth [OF assms(1), of env] assms(2,3) obtain g where
    g: "setup_tasks env tasks = Inr g"
    and n: "normalize_task env ?i ?t = Inr (g_tasks g ! k)"
    by blast
  have two_days: "\<exists>a b. Some (Some s) = Some (Some a)
      \<and> Some (end_of_day (add (Some s) 2 DAY)) = Some (Some b) \<and> a < b" if "plain_time s" for s
    using plain_time_two_days [OF that] by (simp add: msPerDay_def)
  have "\<exists>a b. t__start (g_tasks g ! k) = Some (Some a)
           \<and> t__end (g_tasks g ! k) = Some (Some b) \<and> a < b"
  proof (cases "falsy (t_start ?t)"; cases "falsy (t_end ?t)")
    assume f: "falsy (t_start ?t)" "falsy (t_end ?t)"
    with N have p: "plain_time (now env)" by simp
    have "g_tasks g ! k = finish env ?i (?t\<lparr>t__index := Some ?i, t__start := Some (today env),
                  t__end := Some (end_of_day (add (today env) 2 DAY))\<rparr>)"
      using n normalize_neither [OF f, of env ?i] by simp
    then show ?thesis
      using two_days [OF today_plain(2) [OF p]] by (simp add: today_plain(1) [OF p])
  next
    assume f: "falsy (t_start ?t)" "\<not> falsy (t_end ?t)"
    with E obtain e where e: "parse env (t_end ?t) = Some (Some e)" "plain_time e" by blast
    have a: "add (Some e) (- 2) DAY = Some (e - 2 * msPerDay)"
      using plain_time_add_days [OF e(2), of "- 2"] by simp
    have b: "end_of_day (Some e) = Some (e + (if TimeWithinDay e = 0 then msPerDay else 0))"
      using e(2) by (intro plain_time_end_of_day) (simp_all add: plain_time_def msPerDay_def)
    have "g_tasks g ! k = finish env ?i (?t\<lparr>t__index := Some ?i,
             t__start := Some (add (Some e) (- 2) DAY),
             t__end := Some (end_of_day (Some e))\<rparr>)"
      using n normalize_end_only [OF f e(1), of ?i] by simp
    then show ?thesis by (simp add: a b msPerDay_def)
  next
    assume f: "\<not> falsy (t_start ?t)" "falsy (t_end ?t)"
    with S obtain s where s: "parse env (t_start ?t) = Some (Some s)" "plain_time s" by blast
    have "g_tasks g ! k = finish env ?i (?t\<lparr>t__index := Some ?i, t__start := Some (Some s),
             t__end := Some (end_of_day (add (Some s) 2 DAY))\<rparr>)"
      using n normalize_start_only [OF f s(1), of ?i] by simp
    then show ?thesis using two_days [OF s(2)] by simp
  next
    assume f: "\<not> falsy (t_start ?t)" "\<not> falsy (t_end ?t)"
    with S obtain s where s: "parse env (t_start ?t) = Some (Some s)" "plain_time s" by blast
    from f E obtain e where e: "parse env (t_end ?t) = Some (Some e)" "plain_time e" by blast
    show ?thesis
    proof (cases "span_over env ?t")
      case True
      have "g_tasks g ! k = finish env ?i (?t\<lparr>t_end := Absent, t__index := Some ?i,
             t__start := Some (Some s), t__end := Some (end_of_day (add (Some s) 2 DAY))\<rparr>)"
        using n normalize_both [OF f s(1) e(1), of ?i] True by simp
      then show ?thesis using two_days [OF s(2)] by simp
    next
      case False
      have b: "end_of_day (Some e) = Some (e + (if TimeWithinDay e = 0 then msPerDay else 0))"
        using e(2) by (intro plain_time_end_of_day) (simp_all add: plain_time_def msPerDay_def)
      from order s(1) e(1) False
      have lt: "s < e + (if TimeWithinDay e = 0 then msPerDay else 0)" by blast
      have "g_tasks g ! k = finish env ?i (?t\<lparr>t__index := Some ?i,
             t__start := Some (Some s), t__end := Some (end_of_day (Some e))\<rparr>)"
        using n normalize_both [OF f s(1) e(1), of ?i] False by simp
      then show ?thesis using lt by (simp add: b)
    qed
  qed
  with g show ?thesis by blast
qed

text \<open>A task from \<^verbatim>\<open>'2024-01-10'\<close> to \<^verbatim>\<open>'2024-01-12'\<close>: the theorem at that task.\<close>

theorem setup_tasks_end_after_start_witness:
  "hidden_iterable [raw_task ''a'' (Str ''2024-01-10'') (Str ''2024-01-12'') None]
   \<and> 0 < length [raw_task ''a'' (Str ''2024-01-10'') (Str ''2024-01-12'') None]
   \<and> is_visible ([raw_task ''a'' (Str ''2024-01-10'') (Str ''2024-01-12'') None] ! 0)
   \<and> parse env0 (t_start ([raw_task ''a'' (Str ''2024-01-10'') (Str ''2024-01-12'') None] ! 0))
       = Some (Some 1704844800000)
   \<and> plain_time 1704844800000
   \<and> parse env0 (t_end ([raw_task ''a'' (Str ''2024-01-10'') (Str ''2024-01-12'') None] ! 0))
       = Some (Some 1705017600000)
   \<and> plain_time 1705017600000
   \<and> \<not> falsy (t_start ([raw_task ''a'' (Str ''2024-01-10'') (Str ''2024-01-12'') None] ! 0))
   \<and> (1704844800000 :: int)
       < 1705017600000 + (if TimeWithinDay 1705017600000 = 0 then msPerDay else 0)
   \<and> (\<exists>g a b. setup_tasks env0 [raw_task ''a'' (Str ''2024-01-10'') (Str ''2024-01-12'') None]
                 = Inr g
          \<and> t__start (g_tasks g ! 0) = Some (Some a)
          \<and> t__end (g_tasks g ! 0) = Some (Some b) \<and> a < b)"
proof -
  let ?ts = "[raw_task ''a'' (Str ''2024-01-10'') (Str ''2024-01-12'') None]"
  have h: "hidden_iterable ?ts" "0 < length ?ts" "is_visible (?ts ! 0)"
    by (simp_all add: hidden_iterable_def is_visible_def raw_task_def)
  have f: "\<not> falsy (t_start (?ts ! 0))"
    by (simp add: falsy_def raw_task_def)
  have ps: "parse env0 (t_start (?ts ! 0)) = Some (Some 1704844800000)"
    using parse_2024(1) by (simp add: raw_task_def)
  have pe: "parse env0 (t_end (?ts ! 0)) = Some (Some 1705017600000)"
    using parse_2024(2) by (simp add: raw_task_def)
  have lt: "(1704844800000 :: int)
       < 1705017600000 + (if TimeWithinDay 1705017600000 = 0 then msPerDay else 0)"
    by (simp add: TimeWithinDay_def msPerDay_def)
  have S: "falsy (t_start (?ts ! 0))
            \<or> (\<exists>s. parse env0 (t_start (?ts ! 0)) = Some (Some s) \<and> plain_time s)"
    using ps plain_2024(1) by blast
  have E: "falsy (t_end (?ts ! 0))
            \<or> (\<exists>e. parse env0 (t_end (?ts ! 0)) = Some (Some e) \<and> plain_time e)"
    using pe plain_2024(2) by blast
  have N: "falsy (t_start (?ts ! 0)) \<and> falsy (t_end (?ts ! 0)) \<longrightarrow> plain_time (now env0)"
    using f by simp
  have order: "\<forall>s e. parse env0 (t_start (?ts ! 0)) = Some (Some s)
                 \<and> parse env0 (t_end (?ts ! 0)) = Some (Some e)
                 \<and> \<not> span_over env0 (?ts ! 0)
               \<longrightarrow> s < e + (if TimeWithinDay e = 0 then msPerDay else 0)"
    using lt unfolding ps pe by simp
  from setup_tasks_end_after_start [OF h S E N order]
  have "\<exists>g a b. setup_tasks env0 ?ts = Inr g
          \<and> t__start (g_tasks g ! 0) = Some (Some a)
          \<and> t__end (g_tasks g ! 0) = Some (Some b) \<and> a < b" .
  with h f ps pe lt plain_2024 show ?thesis by blast
qed

text \<open>
  A visible task whose end is given before its start keeps \<^verbatim>\<open>_end\<close> before \<^verbatim>\<open>_start\<close>,
  and a task with \<^verbatim>\<open>visible: false\<close> gets neither field.
\<close>

theorem setup_tasks_end_after_start_counterexample:
  "(case setup_tasks env0
           [raw_task ''a'' (Str ''2024-01-12'') (Str ''2024-01-10'') None,
            raw_task ''h'' (Str ''2024-01-10'') (Str ''2024-01-12'') (Some False)] of
      Inl e \<Rightarrow> False
    | Inr g \<Rightarrow> t__start (g_tasks g ! 0) = Some (Some 1705017600000)
             \<and> t__end (g_tasks g ! 0) = Some (Some 1704931200000)
             \<and> t__start (g_tasks g ! 1) = None
             \<and> t__end (g_tasks g ! 1) = None)
   \<and> \<not> ((1705017600000 :: int) < 1704931200000)"
  by code_simp

subsection \<open>Normalizing twice\<close>

lemma parse_env_cong:
  assumes "to_integer env' = to_integer env" "fraction_ms env' = fraction_ms env"
  shows "parse env' r = parse env r"
proof -
  have tv: "time_values env' = time_values env"
    using assms by (simp add: time_values_def fun_eq_iff)
  have "parse_string env' s = parse_string env s" for s
    unfolding parse_string_def tv ..
  then show ?thesis by (cases r) (simp_all add: parse_def)
qed

lemma span_over_cong:
  assumes "parse env' (t_start t') = parse env (t_start t)"
    and "parse env' (t_end t') = parse env (t_end t)"
  shows "span_over env' t' = span_over env t"
  using assms by (simp add: span_over_def)

lemma finish_id_kept:
  "t_id t \<noteq> None \<and> t_id t \<noteq> Some [] \<Longrightarrow> t_id (finish env i t) = t_id t"
  by (simp add: finish_id)

lemma normalize_task_again:
  assumes P: "\<And>r. parse env' r = parse env r"
    and T: "today env' = today env"
    and n: "normalize_task env i t = Inr t'"
  shows "\<exists>t''. normalize_task env' j t' = Inr t''
           \<and> t__start t'' = t__start t' \<and> t__end t'' = t__end t' \<and> t_id t'' = t_id t'"
proof -
  have id: "t_id t' \<noteq> None \<and> t_id t' \<noteq> Some []" by (rule normalize_task_frame(5) [OF n])
  have kept: "t_id (finish env' j (t'\<lparr>t__index := Some j, t__start := a, t__end := b\<rparr>)) = t_id t'"
    for a b using id by (simp add: finish_id)
  show ?thesis
  proof (cases "falsy (t_start t)"; cases "falsy (t_end t)")
    assume f: "falsy (t_start t)" "falsy (t_end t)"
    from n normalize_neither [OF f, of env i]
    have t': "t' = finish env i (t\<lparr>t__index := Some i, t__start := Some (today env),
                  t__end := Some (end_of_day (add (today env) 2 DAY))\<rparr>)" by simp
    have f': "falsy (t_start t')" "falsy (t_end t')" using f by (simp_all add: t')
    show ?thesis
      using normalize_neither [OF f', of env' j] kept by (simp add: T) (simp add: t')
  next
    assume f: "falsy (t_start t)" "\<not> falsy (t_end t)"
    from truthy_parse [OF f(2)] obtain e where e: "parse env (t_end t) = Some e" ..
    from n normalize_end_only [OF f e, of i]
    have t': "t' = finish env i (t\<lparr>t__index := Some i, t__start := Some (add e (- 2) DAY),
                  t__end := Some (end_of_day e)\<rparr>)" by simp
    have f': "falsy (t_start t')" "\<not> falsy (t_end t')" using f by (simp_all add: t')
    have e': "parse env' (t_end t') = Some e" using e by (simp add: P t')
    show ?thesis
      using normalize_end_only [OF f' e', of j] kept by simp (simp add: t')
  next
    assume f: "\<not> falsy (t_start t)" "falsy (t_end t)"
    from truthy_parse [OF f(1)] obtain b where b: "parse env (t_start t) = Some b" ..
    from n normalize_start_only [OF f b, of i]
    have t': "t' = finish env i (t\<lparr>t__index := Some i, t__start := Some b,
                  t__end := Some (end_of_day (add b 2 DAY))\<rparr>)" by simp
    have f': "\<not> falsy (t_start t')" "falsy (t_end t')" using f by (simp_all add: t')
    have b': "parse env' (t_start t') = Some b" using b by (simp add: P t')
    show ?thesis
      using normalize_start_only [OF f' b', of j] kept by simp (simp add: t')
  next
    assume f: "\<not> falsy (t_start t)" "\<not> falsy (t_end t)"
    from truthy_parse [OF f(1)] obtain b where b: "parse env (t_start t) = Some b" ..
    from truthy_parse [OF f(2)] obtain e where e: "parse env (t_end t) = Some e" ..
    show ?thesis
    proof (cases "span_over env t")
      case True
      with n normalize_both [OF f b e, of i]
      have t': "t' = finish env i (t\<lparr>t_end := Absent, t__index := Some i, t__start := Some b,
                   t__end := Some (end_of_day (add b 2 DAY))\<rparr>)" by simp
      have f': "\<not> falsy (t_start t')" "falsy (t_end t')"
        using f by (simp_all add: t') (simp add: falsy_def)
      have b': "parse env' (t_start t') = Some b" using b by (simp add: P t')
      show ?thesis
        using normalize_start_only [OF f' b', of j] kept by simp (simp add: t')
    next
      case False
      with n normalize_both [OF f b e, of i]
      have t': "t' = finish env i (t\<lparr>t__index := Some i, t__start := Some b,
                   t__end := Some (end_of_day e)\<rparr>)" by simp
      have f': "\<not> falsy (t_start t')" "\<not> falsy (t_end t')" using f by (simp_all add: t')
      have b': "parse env' (t_start t') = Some b" using b by (simp add: P t')
      have e': "parse env' (t_end t') = Some e" using e by (simp add: P t')
      have "span_over env' t' = span_over env t"
        by (rule span_over_cong) (simp_all add: P t')
      with False have s': "\<not> span_over env' t'" by simp
      show ?thesis
        using normalize_both [OF f' b' e', of j] kept s' by simp (simp add: t')
    qed
  qed
qed

lemma setup_dependencies_loop_iterable:
  "setup_dependencies_loop ts m = Inr m' \<Longrightarrow> \<forall>t\<in>set ts. t_dependencies t \<noteq> DepsAbsent"
proof (induction ts arbitrary: m)
  case Nil
  then show ?case by simp
next
  case (Cons t ts)
  then show ?case by (cases "t_dependencies t") auto
qed

lemma setup_tasks_result:
  assumes "setup_tasks env tasks = Inr g"
  shows "normalize_all env 0 tasks = Inr (g_tasks g)"
    and "\<forall>t\<in>set (g_tasks g). t_dependencies t \<noteq> DepsAbsent"
proof -
  from normalize_all_nth [of env 0 tasks] obtain ts where ts: "normalize_all env 0 tasks = Inr ts"
    by blast
  with assms obtain dm where dm: "setup_dependencies ts = Inr dm" and g: "g_tasks g = ts"
    by (auto simp: setup_tasks_def bind_err_def split: sum.splits)
  from ts g show "normalize_all env 0 tasks = Inr (g_tasks g)" by simp
  from dm g show "\<forall>t\<in>set (g_tasks g). t_dependencies t \<noteq> DepsAbsent"
    unfolding setup_dependencies_def by (auto dest: setup_dependencies_loop_iterable)
qed

lemma first_run_values:
  "map_sum id (map (\<lambda>t. (t__start t, t__end t, t_id t)) \<circ> g_tasks)
     (setup_tasks env0
        [raw_task ''a'' (Str ''2024-01-10'') Absent None,
         raw_task ''b'' Absent Absent None,
         raw_task ''c'' (Str ''2024-01-10'') (Str ''2044-01-12'') None])
   = Inr [(Some (Some 1704844800000), Some (Some 1705104000000), Some ''a_k3j9x0q2ab''),
          (Some (Some 1705017600000), Some (Some 1705276800000), Some ''b_k3j9x0q2ab''),
          (Some (Some 1704844800000), Some (Some 1705104000000), Some ''c_k3j9x0q2ab'')]"
  by code_simp

text \<open>
  C6. When \<^verbatim>\<open>setup_tasks\<close> has returned, running it again on the task list it left,
  on a platform that reads numbers the same way and on the same day (the clock and
  the random identifiers may differ), returns as well, and every task has the same
  \<^verbatim>\<open>_start\<close>, \<^verbatim>\<open>_end\<close> and \<^verbatim>\<open>id\<close> as after the first run.
\<close>

theorem setup_tasks_idempotent:
  assumes first: "setup_tasks env tasks = Inr g"
    and same_platform: "to_integer env' = to_integer env" "fraction_ms env' = fraction_ms env"
    and same_day: "today env' = today env"
  shows "\<exists>g'. setup_tasks env' (g_tasks g) = Inr g'
           \<and> map (\<lambda>t. (t__start t, t__end t, t_id t)) (g_tasks g')
             = map (\<lambda>t. (t__start t, t__end t, t_id t)) (g_tasks g)"
proof -
  let ?ts = "g_tasks g"
  have P: "parse env' r = parse env r" for r by (rule parse_env_cong [OF same_platform])
  from setup_tasks_result [OF first]
  have ts: "normalize_all env 0 tasks = Inr ?ts"
    and it: "\<forall>t\<in>set ?ts. t_dependencies t \<noteq> DepsAbsent" by blast+
  from normalize_all_nth [of env 0 tasks] ts
  have len: "length ?ts = length tasks"
    and nth: "\<forall>k<length tasks.
        (is_visible (tasks ! k) \<longrightarrow>
           normalize_task env (0 + visible_index tasks k) (tasks ! k) = Inr (?ts ! k))
        \<and> (\<not> is_visible (tasks ! k) \<longrightarrow> ?ts ! k = tasks ! k)" by auto
  from it have "hidden_iterable ?ts" by (simp add: hidden_iterable_def list_all_iff)
  from setup_tasks_nth [OF this, of env'] obtain g' where
    g': "setup_tasks env' ?ts = Inr g'" and len': "length (g_tasks g') = length ?ts"
    and nth': "\<forall>k<length ?ts.
        (is_visible (?ts ! k) \<longrightarrow>
           normalize_task env' (visible_index ?ts k) (?ts ! k) = Inr (g_tasks g' ! k))
        \<and> (\<not> is_visible (?ts ! k) \<longrightarrow> g_tasks g' ! k = ?ts ! k)" by blast
  have "t__start (g_tasks g' ! k) = t__start (?ts ! k)
        \<and> t__end (g_tasks g' ! k) = t__end (?ts ! k)
        \<and> t_id (g_tasks g' ! k) = t_id (?ts ! k)" if k: "k < length ?ts" for k
  proof (cases "is_visible (?ts ! k)")
    case False
    with nth' k show ?thesis by simp
  next
    case True
    have "is_visible (tasks ! k)"
    proof (rule ccontr)
      assume "\<not> is_visible (tasks ! k)"
      with nth k len have "?ts ! k = tasks ! k" by simp
      with True \<open>\<not> is_visible (tasks ! k)\<close> show False by simp
    qed
    with nth k len
    have n: "normalize_task env (0 + visible_index tasks k) (tasks ! k) = Inr (?ts ! k)" by simp
    from normalize_task_again [OF P same_day n, of "visible_index ?ts k"] nth' k True
    show ?thesis by auto
  qed
  then have "map (\<lambda>t. (t__start t, t__end t, t_id t)) (g_tasks g')
             = map (\<lambda>t. (t__start t, t__end t, t_id t)) ?ts"
    using len' by (auto simp: list_eq_iff_nth_eq)
  with g' show ?thesis by blast
qed

text \<open>
  Three tasks: a start only, no date at all, and a span of twenty years, which sets
  \<^verbatim>\<open>end\<close> to \<^verbatim>\<open>null\<close>; the second run is ten hours later.
\<close>

theorem setup_tasks_idempotent_witness:
  "\<exists>g g'. setup_tasks env0
             [raw_task ''a'' (Str ''2024-01-10'') Absent None,
              raw_task ''b'' Absent Absent None,
              raw_task ''c'' (Str ''2024-01-10'') (Str ''2044-01-12'') None] = Inr g
     \<and> to_integer env1 = to_integer env0 \<and> fraction_ms env1 = fraction_ms env0
     \<and> today env1 = today env0 \<and> now env1 \<noteq> now env0
     \<and> setup_tasks env1 (g_tasks g) = Inr g'
     \<and> map (\<lambda>t. (t__start t, t__end t, t_id t)) (g_tasks g')
       = [(Some (Some 1704844800000), Some (Some 1705104000000), Some ''a_k3j9x0q2ab''),
          (Some (Some 1705017600000), Some (Some 1705276800000), Some ''b_k3j9x0q2ab''),
          (Some (Some 1704844800000), Some (Some 1705104000000), Some ''c_k3j9x0q2ab'')]"
proof -
  let ?ts = "[raw_task ''a'' (Str ''2024-01-10'') Absent None,
              raw_task ''b'' Absent Absent None,
              raw_task ''c'' (Str ''2024-01-10'') (Str ''2044-01-12'') None]"
  from first_run_values obtain g where g: "setup_tasks env0 ?ts = Inr g"
    and v: "map (\<lambda>t. (t__start t, t__end t, t_id t)) (g_tasks g)
       = [(Some (Some 1704844800000), Some (Some 1705104000000), Some ''a_k3j9x0q2ab''),
          (Some (Some 1705017600000), Some (Some 1705276800000), Some ''b_k3j9x0q2ab''),
          (Some (Some 1704844800000), Some (Some 1705104000000), Some ''c_k3j9x0q2ab'')]"
    by (cases "setup_tasks env0 ?ts") simp_all
  have p: "to_integer env1 = to_integer env0" "fraction_ms env1 = fraction_ms env0"
    by (simp_all add: env1_def)
  have d: "today env1 = today env0" by code_simp
  have n: "now env1 \<noteq> now env0" by (simp add: env1_def env0_def)
  from setup_tasks_idempotent [OF g p d] v p d n g show ?thesis by auto
qed

section \<open>Properties of \<open>parse\<close> and \<open>to_string\<close>\<close>

lemma split_on_none: "\<forall>c\<in>set s. \<not> sep c \<Longrightarrow> split_on sep s = [s]"
  by (induction s) simp_all

lemma split_on_at:
  "\<forall>x\<in>set a. \<not> sep x \<Longrightarrow> sep c \<Longrightarrow> split_on sep (a @ c # r) = a # split_on sep r"
  by (induction a) simp_all

lemma digit_not_other:
  assumes "is_digit c"
  shows "\<not> is_space c" "c \<noteq> CHR ''-''" "c \<noteq> CHR ''+''" "c \<noteq> CHR '' ''"
  using assms by (auto simp: is_digit_def is_space_def)

lemma parseInt_digits:
  assumes "ds \<noteq> []" "list_all is_digit ds"
  shows "parseInt ds = Some (digits_value ds)"
proof -
  from assms obtain c r where ds: "ds = c # r" by (cases ds) auto
  with assms(2) have c: "is_digit c" by simp
  have "takeWhile is_digit ds = ds" using assms(2) by (simp add: list_all_iff)
  with ds digit_not_other [OF c] show ?thesis by (simp add: parseInt_def)
qed

lemma digits_value_snoc: "digits_value (ds @ [c]) = 10 * digits_value ds + digit_value c"
  by (simp add: digits_value_def)

lemma digit_value_range: "is_digit c \<Longrightarrow> 0 \<le> digit_value c \<and> digit_value c \<le> 9"
  by (auto simp: is_digit_def digit_value_def)

lemma digit_char_value: "is_digit c \<Longrightarrow> digit_char (nat (digit_value c)) = c"
proof -
  assume "is_digit c"
  then have "48 + nat (digit_value c) = (of_char c :: nat)"
    unfolding is_digit_def digit_value_def by arith
  then show ?thesis by (simp add: digit_char_def)
qed

lemma digits_value_pos:
  "ds \<noteq> [] \<Longrightarrow> list_all is_digit ds \<Longrightarrow> 1 \<le> digit_value (hd ds) \<Longrightarrow> 1 \<le> digits_value ds"
proof (induction ds rule: rev_induct)
  case Nil
  then show ?case by simp
next
  case (snoc c ds)
  show ?case
  proof (cases "ds = []")
    case True
    with snoc.prems show ?thesis by (simp add: digits_value_def)
  next
    case False
    with snoc have "1 \<le> digits_value ds" by simp
    moreover from snoc.prems have "0 \<le> digit_value c" by (simp add: digit_value_range)
    ultimately show ?thesis by (simp add: digits_value_snoc)
  qed
qed

lemma string_of_nat_digits:
  "ds \<noteq> [] \<Longrightarrow> list_all is_digit ds \<Longrightarrow> length ds = 1 \<or> 1 \<le> digit_value (hd ds)
   \<Longrightarrow> string_of_nat (nat (digits_value ds)) = ds"
proof (induction ds rule: rev_induct)
  case Nil
  then show ?case by simp
next
  case (snoc c ds)
  from snoc.prems have c: "is_digit c" by simp
  note r = digit_value_range [OF c]
  show ?case
  proof (cases "ds = []")
    case True
    have "digits_value [c] = digit_value c" by (simp add: digits_value_def)
    moreover have "nat (digit_value c) < 10" using r by arith
    ultimately show ?thesis
      using True digit_char_value [OF c] string_of_nat.simps [of "nat (digit_value c)"] by simp
  next
    case False
    with snoc.prems have h: "1 \<le> digit_value (hd ds)" and all: "list_all is_digit ds" by simp_all
    from snoc.IH [OF False all] h have ih: "string_of_nat (nat (digits_value ds)) = ds" by simp
    from digits_value_pos [OF False all h] have p: "1 \<le> digits_value ds" .
    let ?n = "nat (digits_value (ds @ [c]))"
    have n: "?n = 10 * nat (digits_value ds) + nat (digit_value c)"
      using p r by (simp add: digits_value_snoc nat_add_distrib nat_mult_distrib)
    have "\<not> ?n < 10" using p n by simp
    moreover have "nat (digit_value c) < 10" using r by arith
    then have "?n div 10 = nat (digits_value ds)" "?n mod 10 = nat (digit_value c)"
      by (simp_all add: n)
    ultimately show ?thesis
      using string_of_nat.simps [of ?n] ih digit_char_value [OF c] by simp
  qed
qed

lemma pad_two_digits:
  assumes "is_digit e" "is_digit f"
  shows "padStart (number_to_string (Some (digits_value [e, f]))) 2 ''0'' = [e, f]"
proof (cases "1 \<le> digit_value e")
  case True
  with assms have "string_of_nat (nat (digits_value [e, f])) = [e, f]"
    by (intro string_of_nat_digits) simp_all
  moreover have "0 \<le> digits_value [e, f]"
    using digits_value_pos [of "[e, f]"] True assms by simp
  ultimately show ?thesis by (simp add: number_to_string_def padStart_def)
next
  case False
  with digit_value_range [OF assms(1)] have z: "digit_value e = 0" by simp
  with assms(1) have "(of_char e :: nat) = of_char CHR ''0''"
    unfolding is_digit_def digit_value_def by simp
  then have e: "e = CHR ''0''" by (simp only: of_char_eq_iff)
  have v: "digits_value [e, f] = digit_value f" by (simp add: digits_value_def z)
  have "string_of_nat (nat (digit_value f)) = [f]"
    using string_of_nat_digits [of "[f]"] assms(2) by (simp add: digits_value_def)
  with digit_value_range [OF assms(2)]
  have "padStart (number_to_string (Some (digits_value [e, f]))) 2 ''0'' = [CHR ''0'', f]"
    by (simp add: v number_to_string_def padStart_def)
  then show ?thesis by (simp add: e)
qed

lemma DayFromYear_1000: "DayFromYear 1000 = - 354285" "DayFromYear 10000 = 2932897"
  by (simp_all add: DayFromYear_def)

lemma new_Date_civil:
  assumes v: "valid_ymd y m d" and y: "1000 \<le> y" "y \<le> 9999"
  shows "\<exists>t. new_Date (Some y) (Some (m - 1)) [Some d] = Some t
           \<and> YearFromTime t = y \<and> MonthFromTime t = m - 1 \<and> DateFromTime t = d"
proof -
  let ?t = "MakeDate (MakeDay y (m - 1) d) 0"
  note f = civil_fields [OF v]
  from f(4) have "msPerDay dvd ?t" by (simp add: TimeWithinDay_def mod_eq_0_iff_dvd)
  then have t: "?t = Day ?t * msPerDay" by (simp add: Day_def)
  from YearFromTime_bounds [of ?t] f(1)
  have "DayFromYear y \<le> Day ?t" "Day ?t < DayFromYear (y + 1)" by simp_all
  with DayFromYear_mono [of 1000 y] DayFromYear_mono [of "y + 1" 10000] y
  have "- 354285 \<le> Day ?t" "Day ?t < 2932897" by (simp_all add: DayFromYear_1000)
  then have "- 8640000000000000 \<le> Day ?t * msPerDay" "Day ?t * msPerDay \<le> 8640000000000000"
    by (simp_all add: msPerDay_def)
  with t have "TimeClip ?t = Some ?t" by (simp add: TimeClip_in_range)
  moreover have "new_Date (Some y) (Some (m - 1)) [Some d] = TimeClip ?t"
    using y by (simp add: new_Date_def component_def MakeTime_def)
  ultimately show ?thesis using f by simp
qed

text \<open>
  C10, as the code has it. For a date string \<^verbatim>\<open>YYYY-MM-DD\<close> of a date that exists, in
  a year from 1000 on, \<^verbatim>\<open>to_string(parse(s))\<close> is \<open>s\<close>: \<^verbatim>\<open>parse\<close> takes one from the
  month and \<^verbatim>\<open>to_string\<close> adds it back.
\<close>

theorem to_string_parse_round_trip:
  assumes wf: "well_formed_date s" and year: "1000 \<le> date_year s"
  shows "to_string (parse env (Str s)) False = Inr s"
proof -
  from wf have "length s = 10" by (simp add: well_formed_date_def)
  then obtain a b c d p e f q g h where s: "s = [a, b, c, d, p, e, f, q, g, h]"
    by (auto simp: numeral_eq_Suc length_Suc_conv)
  from wf have sep: "p = CHR ''-''" "q = CHR ''-''"
    and dg: "is_digit a" "is_digit b" "is_digit c" "is_digit d" "is_digit e" "is_digit f"
      "is_digit g" "is_digit h"
    and v: "valid_ymd (digits_value [a, b, c, d]) (digits_value [e, f]) (digits_value [g, h])"
    by (simp_all add: well_formed_date_def s date_year_def date_month_def date_day_def)
  let ?y = "digits_value [a, b, c, d]" and ?m = "digits_value [e, f]"
    and ?d = "digits_value [g, h]"
  have y: "1000 \<le> ?y" using year by (simp add: date_year_def s)
  have y_hi: "?y \<le> 9999"
    using dg(1-4) [THEN digit_value_range] by (simp add: digits_value_def)
  have a: "1 \<le> digit_value a"
    using y dg(2-4) [THEN digit_value_range] by (simp add: digits_value_def)
  have sp: "split_on (\<lambda>c. c = CHR '' '') s = [s]"
    using dg [THEN digit_not_other(4)] by (intro split_on_none) (simp add: s sep)
  have "split_on (\<lambda>c. c = CHR ''-'') ([a, b, c, d] @ CHR ''-'' # [e, f] @ CHR ''-'' # [g, h])
          = [[a, b, c, d], [e, f], [g, h]]"
    using dg [THEN digit_not_other(2)] by (simp add: split_on_at split_on_none)
  then have da: "split_on (\<lambda>c. c = CHR ''-'') s = [[a, b, c, d], [e, f], [g, h]]"
    by (simp add: s sep)
  have pi: "parseInt [a, b, c, d] = Some ?y" "parseInt [e, f] = Some ?m"
    "parseInt [g, h] = Some ?d"
    using dg by (simp_all add: parseInt_digits)
  have ps: "parse_string env s = new_Date (Some ?y) (Some (?m - 1)) [Some ?d]"
    by (simp add: parse_string_def sp da pi)
  from new_Date_civil [OF v y y_hi] obtain t where
    t: "new_Date (Some ?y) (Some (?m - 1)) [Some ?d] = Some t"
    and fields: "YearFromTime t = ?y" "MonthFromTime t = ?m - 1" "DateFromTime t = ?d"
    by blast
  have "string_of_nat (nat ?y) = [a, b, c, d]"
    using dg a by (intro string_of_nat_digits) simp_all
  with y have yy: "padStart (number_to_string (Some ?y)) 2 ''0'' = [a, b, c, d]"
    by (simp add: number_to_string_def padStart_def)
  have "to_string (Some (Some t)) False
          = Inr ([a, b, c, d] @ ''-'' @ [e, f] @ ''-'' @ [g, h])"
    using yy pad_two_digits [OF dg(5,6)] pad_two_digits [OF dg(7,8)]
    by (simp add: to_string_def get_date_values_def to_string_val_def enumerate_eq_zip
        getFullYear_def getMonth_def getDate_def fields Let_def upt_rec)
  moreover have "parse env (Str s) = Some (Some t)" by (simp add: parse_def ps t)
  ultimately show ?thesis by (simp add: s sep)
qed

text \<open>The leap day of 2024.\<close>

theorem to_string_parse_round_trip_witness:
  "well_formed_date ''2024-02-29'' \<and> 1000 \<le> date_year ''2024-02-29''
   \<and> parse env0 (Str ''2024-02-29'') = Some (Some 1709164800000)
   \<and> to_string (parse env0 (Str ''2024-02-29'')) False = Inr ''2024-02-29''"
proof -
  have w: "well_formed_date ''2024-02-29''" by code_simp
  have y: "1000 \<le> date_year ''2024-02-29''" by code_simp
  have p: "parse env0 (Str ''2024-02-29'') = Some (Some 1709164800000)" by code_simp
  from to_string_parse_round_trip [OF w y, of env0] w y p show ?thesis by simp
qed

text \<open>
  Below the year 1000 the string does not come back: the year is padded to two
  characters only, and the constructor reads the years 0 to 99 as 1900 to 1999.
\<close>

theorem to_string_parse_counterexample:
  "well_formed_date ''0999-01-12''
   \<and> to_string (parse env0 (Str ''0999-01-12'')) False = Inr ''999-01-12''
   \<and> to_string (parse env0 (Str ''0999-01-12'')) False \<noteq> Inr ''0999-01-12''
   \<and> well_formed_date ''0050-01-12''
   \<and> to_string (parse env0 (Str ''0050-01-12'')) False = Inr ''1950-01-12''
   \<and> to_string (parse env0 (Str ''0050-01-12'')) False \<noteq> Inr ''0050-01-12''"
  by code_simp

end
